theory Spec2Isabelle
  imports Main "HOL-Library.Word" "HOL-Library.Multiset"
begin

section \<open>JavaScript values used by app.js\<close>

text \<open>
  A JavaScript string is a sequence of 16-bit code units; the regular expression of
  \<open>parseSupport\<close> has no \<open>u\<close> flag and so works on code units. \<open>js\<close> writes
  an ASCII literal as such a string.
\<close>

type_synonym jschar = "16 word"
type_synonym jsstring = "jschar list"

definition js :: "string \<Rightarrow> jsstring" where
  "js s = map of_char s"

text \<open>
  The script keeps its data in plain objects (\<open>{}\<close>, or what \<open>JSON.parse\<close> builds). Such
  an object is a list of own properties in insertion order (none of the keys the script
  stores is an array index, so enumeration is insertion order), and a read \<open>obj[k]\<close> that
  finds no own property continues into \<open>Object.prototype\<close>, whose members are functions
  (or, for \<open>__proto__\<close>, the prototype object): all truthy, none of them a record of the
  data model.
\<close>

type_synonym 'a jsobject = "(jsstring \<times> 'a) list"

definition Object_prototype_keys :: "jsstring list" where
  "Object_prototype_keys = map js
     [''constructor'', ''hasOwnProperty'', ''isPrototypeOf'', ''propertyIsEnumerable'',
      ''toLocaleString'', ''toString'', ''valueOf'', ''__proto__'',
      ''__defineGetter__'', ''__defineSetter__'', ''__lookupGetter__'', ''__lookupSetter__'']"

datatype 'a property = Absent | Own 'a | Inherited

definition js_get :: "'a jsobject \<Rightarrow> jsstring \<Rightarrow> 'a property" where
  "js_get obj k =
     (case map_of obj k of
        Some v \<Rightarrow> Own v
      | None \<Rightarrow> if k \<in> set Object_prototype_keys then Inherited else Absent)"

text \<open>\<open>if (obj[k])\<close> for an object whose own values are records: only a missing property is falsy.\<close>

fun truthy :: "'a property \<Rightarrow> bool" where
  "truthy Absent = False"
| "truthy (Own v) = True"
| "truthy Inherited = True"

text \<open>\<open>if (s)\<close> for a string that may be missing: a missing and an empty string are falsy.\<close>

definition nonempty :: "jsstring option \<Rightarrow> jsstring option" where
  "nonempty s = (case s of Some (c # cs) \<Rightarrow> Some (c # cs) | _ \<Rightarrow> None)"

section \<open>Support values: \<open>parseSupport\<close>\<close>

text \<open>
  \<^verbatim>\<open>value.match(/^([yandu])\s*(?:#(\d+))?$/)\<close>: the character classes of the pattern.
  \<open>\s\<close> is the white space and line terminators of ECMAScript, \<open>\d\<close> is \<open>0\<close> to \<open>9\<close>.
\<close>

definition is_code_char :: "jschar \<Rightarrow> bool" where
  "is_code_char c = (c \<in> set (js ''yandu''))"

definition is_whitespace :: "jschar \<Rightarrow> bool" where
  "is_whitespace c =
     (c \<in> set [0x09, 0x0A, 0x0B, 0x0C, 0x0D, 0x20, 0xA0, 0x1680, 0x2028, 0x2029,
                0x202F, 0x205F, 0x3000, 0xFEFF]
      \<or> (0x2000 \<le> c \<and> c \<le> 0x200A))"

definition is_digit :: "jschar \<Rightarrow> bool" where
  "is_digit c = (0x30 \<le> c \<and> c \<le> 0x39)"

definition hash :: jschar where
  "hash = 0x23"

definition space :: jschar where
  "space = 0x20"

text \<open>
  The match of the anchored pattern, with its two capture groups. The three classes
  (\<open>\s\<close>, \<open>#\<close>, end of input) exclude one another, so the greedy \<open>\s*\<close> never has to
  give a character back: the match is decided by one scan from the left.
\<close>

definition match_support :: "jsstring \<Rightarrow> (jsstring \<times> jsstring option) option" where
  "match_support v =
     (case v of
        [] \<Rightarrow> None
      | c # rest \<Rightarrow>
          if \<not> is_code_char c then None
          else (case dropWhile is_whitespace rest of
                  [] \<Rightarrow> Some ([c], None)
                | h # ds \<Rightarrow>
                    if h = hash \<and> ds \<noteq> [] \<and> list_all is_digit ds
                    then Some ([c], Some ds) else None))"

record parsed_support =
  code :: jsstring
  noteRef :: "jsstring option"

text \<open>\<open>match[2] || null\<close>: an unmatched group is \<open>undefined\<close>, and an empty string would be falsy too.\<close>

definition or_null :: "jsstring option \<Rightarrow> jsstring option" where
  "or_null g = (case g of None \<Rightarrow> None | Some s \<Rightarrow> if s = [] then None else Some s)"

definition unknown_support :: parsed_support where
  "unknown_support = \<lparr>code = js ''u'', noteRef = None\<rparr>"

text \<open>The argument is a string or absent (\<open>undefined\<close>/\<open>null\<close>); the empty string is falsy.\<close>

definition parseSupport :: "jsstring option \<Rightarrow> parsed_support" where
  "parseSupport v =
     (case v of
        None \<Rightarrow> unknown_support
      | Some s \<Rightarrow>
          if s = [] then unknown_support
          else (case match_support s of
                  Some (c, g) \<Rightarrow> \<lparr>code = c, noteRef = or_null g\<rparr>
                | None \<Rightarrow> unknown_support))"

text \<open>The five support codes of the data format.\<close>

definition support_codes :: "jsstring list" where
  "support_codes = map js [''y'', ''a'', ''n'', ''u'', ''d'']"

text \<open>
  The grammar as the specification words it, \<open>^(y|a|n|d|u)( *#<digits>)?$\<close>: a code,
  then nothing, or spaces (U+0020 only), \<open>#\<close> and one or more digits.
\<close>

definition spec_grammar :: "jsstring \<Rightarrow> bool" where
  "spec_grammar s =
     (case s of
        [] \<Rightarrow> False
      | c # rest \<Rightarrow>
          is_code_char c \<and>
          (rest = [] \<or>
           (case dropWhile (\<lambda>x. x = space) rest of
              [] \<Rightarrow> False
            | h # ds \<Rightarrow> h = hash \<and> ds \<noteq> [] \<and> list_all is_digit ds)))"

text \<open>
  The language of the pattern in the source, \<open>^[yandu]\s*(#\d+)?$\<close>, said without the
  scan: a code, any run of white space, then nothing or \<open>#\<close> and one or more digits.
\<close>

definition source_grammar :: "jsstring \<Rightarrow> bool" where
  "source_grammar s =
     (\<exists>c ws. is_code_char c \<and> list_all is_whitespace ws \<and>
        (s = c # ws \<or> (\<exists>ds. ds \<noteq> [] \<and> list_all is_digit ds \<and> s = c # ws @ hash # ds)))"

section \<open>Support icons: \<open>SUPPORT_ICONS\<close> and \<open>renderSupportCell\<close>\<close>

record icon_info =
  icon :: jsstring
  icon_class :: jsstring
  icon_title :: jsstring

definition SUPPORT_ICONS :: "icon_info jsobject" where
  "SUPPORT_ICONS =
     [(js ''y'', \<lparr>icon = js ''&#10003;'', icon_class = js ''support-y'', icon_title = js ''Supported''\<rparr>),
      (js ''a'', \<lparr>icon = js ''~'', icon_class = js ''support-a'', icon_title = js ''Partial support''\<rparr>),
      (js ''n'', \<lparr>icon = js ''&#10005;'', icon_class = js ''support-n'', icon_title = js ''Not supported''\<rparr>),
      (js ''u'', \<lparr>icon = js ''?'', icon_class = js ''support-u'', icon_title = js ''Unknown''\<rparr>),
      (js ''d'', \<lparr>icon = js ''&#9881;'', icon_class = js ''support-a'', icon_title = js ''Disabled by default''\<rparr>)]"

text \<open>
  \<open>SUPPORT_ICONS[code] || SUPPORT_ICONS.u\<close>: the right operand is evaluated exactly when the
  left one is falsy, that is when the read finds nothing.
\<close>

definition icon_fallback_taken :: "jsstring \<Rightarrow> bool" where
  "icon_fallback_taken c = (\<not> truthy (js_get SUPPORT_ICONS c))"

section \<open>The data model\<close>

text \<open>
  The documents the script reads, with the fields it reads from them. A field that the
  script guards with \<open>||\<close>, \<open>?.\<close> or a conditional may be missing and is an \<open>option\<close>.
  Interfaces (the JSON files under \<open>ides/\<close>) and AI clients both carry a \<open>name\<close>.
\<close>

record entity =
  name :: jsstring

record interface = entity +
  compatible_ai_clients :: "jsstring list option"

record client = entity +
  native_names :: "jsstring jsobject option"

text \<open>A source entry is a bare URL string or a structure \<open>{url, evidence}\<close>.\<close>

datatype source = SourceUrl jsstring | SourceRecord "jsstring option" "jsstring option"

record feature =
  feature_id :: jsstring
  title :: "jsstring option"
  stats :: "jsstring jsobject option"
  sources :: "source jsobject option"
  feature_notes :: "jsstring jsobject option"

record changelog_entry =
  date :: jsstring
  entry_type :: jsstring
  entry_title :: jsstring

record changelog_doc =
  entries :: "changelog_entry list option"

text \<open>The four module variables \<open>ides\<close>, \<open>aiClients\<close>, \<open>features\<close>, \<open>changelog\<close>.\<close>

record app_state =
  ides :: "interface jsobject"
  aiClients :: "client jsobject"
  features :: "feature jsobject"
  changelog :: changelog_doc

definition initial_state :: app_state where
  "initial_state = \<lparr>ides = [], aiClients = [], features = [], changelog = \<lparr>entries = Some []\<rparr>\<rparr>"

definition IDE_FILES :: "jsstring list" where
  "IDE_FILES = map js
     [''vscode'', ''cursor'', ''visual-studio'', ''jetbrains'', ''android-studio'', ''xcode'',
      ''windsurf'', ''zed'', ''neovim'', ''emacs'', ''void'', ''pearai'',
      ''firebase-studio'', ''gemini-cli'', ''jules'', ''lovable'',
      ''claude-desktop'', ''claude-code'', ''codex-cli'', ''amp'']"

definition AI_CLIENT_FILES :: "jsstring list" where
  "AI_CLIENT_FILES = map js
     [''github-copilot'', ''cline'', ''continue'', ''cody'', ''tabnine'', ''codeium'', ''amazonq'',
      ''gemini-code-assist'', ''amp'', ''augment'',
      ''native'',
      ''avante'', ''codecompanion'', ''gptel'', ''ellama'',
      ''claude-code'', ''codex-cli'']"

definition FEATURE_FILES :: "jsstring list" where
  "FEATURE_FILES = map js
     [''tools'', ''resources'', ''prompts'', ''sampling'', ''elicitation'', ''roots'']"

text \<open>
  \<open>obj[k] = v\<close>: an own property keeps its place when it is overwritten, a new one goes
  last. (The keys stored are those of the three file lists.)
\<close>

fun js_set :: "'a jsobject \<Rightarrow> jsstring \<Rightarrow> 'a \<Rightarrow> 'a jsobject" where
  "js_set [] k v = [(k, v)]"
| "js_set ((k', v') # obj) k v =
     (if k' = k then (k, v) # obj else (k', v') # js_set obj k v)"

section \<open>The loader: \<open>loadJSON\<close> and \<open>loadAllData\<close>\<close>

text \<open>
  What the network answers for one path: the request fails, or a response arrives with a
  status and a body. The body parses to a value (falsy, such as \<open>null\<close>, or a document of
  the data model) or is not JSON at all (\<open>None\<close>).
\<close>

datatype 'a json = Falsy | Document 'a

datatype 'a fetch_outcome = NetworkError | Response nat "'a json option"

datatype load_error = FetchRejected | HttpStatus nat | SyntaxError

definition response_ok :: "nat \<Rightarrow> bool" where
  "response_ok status = (200 \<le> status \<and> status \<le> 299)"

text \<open>The \<open>try\<close> block of \<open>loadJSON\<close>: each of its three lines can throw.\<close>

definition try_load :: "'a fetch_outcome \<Rightarrow> load_error + 'a json" where
  "try_load r =
     (case r of
        NetworkError \<Rightarrow> Inl FetchRejected
      | Response status body \<Rightarrow>
          if \<not> response_ok status then Inl (HttpStatus status)
          else (case body of None \<Rightarrow> Inl SyntaxError | Some d \<Rightarrow> Inr d))"

text \<open>\<open>loadJSON\<close>: the \<open>catch\<close> block logs and returns \<open>null\<close> (here \<open>None\<close>).\<close>

definition loadJSON :: "'a fetch_outcome \<Rightarrow> 'a json option" where
  "loadJSON r = (case try_load r of Inl e \<Rightarrow> None | Inr d \<Rightarrow> Some d)"

text \<open>\<open>if (data)\<close>: \<open>null\<close> and a falsy value are skipped.\<close>

definition if_data :: "'a json option \<Rightarrow> 'a option" where
  "if_data d = (case d of Some (Document x) \<Rightarrow> Some x | _ \<Rightarrow> None)"

text \<open>
  The network, by category and identifier: \<open>ide_file net id\<close> is the outcome of fetching
  \<open>./data/ides/<id>.json\<close>, and so on.
\<close>

record network =
  ide_file :: "jsstring \<Rightarrow> interface fetch_outcome"
  ai_client_file :: "jsstring \<Rightarrow> client fetch_outcome"
  feature_file :: "jsstring \<Rightarrow> feature fetch_outcome"
  changelog_file :: "changelog_doc fetch_outcome"

text \<open>
  \<open>loadAllData\<close> starts one asynchronous task per file. Each task waits for its own
  \<open>loadJSON\<close> and then, in one uninterrupted step, stores the document under its
  identifier if there is one. None of the tasks can reject, so \<open>Promise.all\<close> waits for
  all of them. The steps happen one at a time in the order in which the responses arrive,
  which the network decides: the schedule.
\<close>

datatype task = LoadIde jsstring | LoadAiClient jsstring | LoadFeature jsstring | LoadChangelog

definition all_tasks :: "task list" where
  "all_tasks = map LoadIde IDE_FILES @ map LoadAiClient AI_CLIENT_FILES
     @ map LoadFeature FEATURE_FILES @ [LoadChangelog]"

definition valid_schedule :: "task list \<Rightarrow> bool" where
  "valid_schedule schedule = (distinct schedule \<and> set schedule = set all_tasks)"

fun settle :: "network \<Rightarrow> task \<Rightarrow> app_state \<Rightarrow> app_state" where
  "settle net (LoadIde i) st =
     (case if_data (loadJSON (ide_file net i)) of
        Some d \<Rightarrow> st\<lparr>ides := js_set (ides st) i d\<rparr> | None \<Rightarrow> st)"
| "settle net (LoadAiClient i) st =
     (case if_data (loadJSON (ai_client_file net i)) of
        Some d \<Rightarrow> st\<lparr>aiClients := js_set (aiClients st) i d\<rparr> | None \<Rightarrow> st)"
| "settle net (LoadFeature i) st =
     (case if_data (loadJSON (feature_file net i)) of
        Some d \<Rightarrow> st\<lparr>features := js_set (features st) i d\<rparr> | None \<Rightarrow> st)"
| "settle net LoadChangelog st =
     (case if_data (loadJSON (changelog_file net)) of
        Some d \<Rightarrow> st\<lparr>changelog := d\<rparr> | None \<Rightarrow> st)"

definition loadAllData :: "network \<Rightarrow> task list \<Rightarrow> app_state \<Rightarrow> app_state" where
  "loadAllData net schedule st = fold (settle net) schedule st"







section \<open>The combination builder: \<open>getClientCombinations\<close>\<close>

record combination =
  key :: jsstring
  ide :: interface
  ideId :: jsstring
  aiClient :: "client property"
  aiClientId :: jsstring

text \<open>\<open>ide.compatible_ai_clients || []\<close>\<close>

definition or_empty :: "'a list option \<Rightarrow> 'a list" where
  "or_empty l = (case l of None \<Rightarrow> [] | Some xs \<Rightarrow> xs)"

text \<open>The inner loop, over the compatibility list of one interface; \<open>combos.push\<close> appends.\<close>

fun clients_loop ::
  "client jsobject \<Rightarrow> jsstring \<Rightarrow> interface \<Rightarrow> jsstring list \<Rightarrow> combination list \<Rightarrow> combination list"
where
  "clients_loop cl iid i [] combos = combos"
| "clients_loop cl iid i (aid # rest) combos =
     (let c = js_get cl aid in
      clients_loop cl iid i rest
        (if truthy c
         then combos @ [\<lparr>key = iid @ js ''+'' @ aid, ide = i, ideId = iid,
                          aiClient = c, aiClientId = aid\<rparr>]
         else combos))"

text \<open>The outer loop, over \<open>Object.entries(ides)\<close>: the own properties in insertion order.\<close>

fun ides_loop ::
  "client jsobject \<Rightarrow> interface jsobject \<Rightarrow> combination list \<Rightarrow> combination list"
where
  "ides_loop cl [] combos = combos"
| "ides_loop cl ((iid, i) # rest) combos =
     ides_loop cl rest (clients_loop cl iid i (or_empty (compatible_ai_clients i)) combos)"

definition getClientCombinations :: "app_state \<Rightarrow> combination list" where
  "getClientCombinations st = ides_loop (aiClients st) (ides st) []"

text \<open>
  A call as a step of the program: the value returned and the module variables after the
  call. The body assigns to none of them.
\<close>

definition call_getClientCombinations :: "app_state \<Rightarrow> combination list \<times> app_state" where
  "call_getClientCombinations st = (getClientCombinations st, st)"

text \<open>
  The order the claim C2 names: the interfaces in the order of \<open>IDE_FILES\<close>, each with
  the identifiers of its list that resolve, in the order of the list.
\<close>

definition keys_in_IDE_FILES_order :: "app_state \<Rightarrow> jsstring list" where
  "keys_in_IDE_FILES_order st =
     concat (map (\<lambda>iid.
        case map_of (ides st) iid of
          None \<Rightarrow> []
        | Some i \<Rightarrow> map (\<lambda>aid. iid @ js ''+'' @ aid)
                     (filter (\<lambda>aid. truthy (js_get (aiClients st) aid))
                        (or_empty (compatible_ai_clients i)))) IDE_FILES)"

text \<open>The interfaces that a schedule stores, in the order in which it stores them.\<close>

definition loaded_ides :: "network \<Rightarrow> task list \<Rightarrow> interface jsobject" where
  "loaded_ides net schedule =
     concat (map (\<lambda>t. case t of
        LoadIde i \<Rightarrow> (case if_data (loadJSON (ide_file net i)) of Some d \<Rightarrow> [(i, d)] | None \<Rightarrow> [])
      | _ \<Rightarrow> []) schedule)"

text \<open>
  A network and a schedule for an example: the files of two interfaces and of the native
  client exist, every other request fails, and the responses arrive in the reverse order
  of the requests.
\<close>

definition native_only :: interface where
  "native_only = \<lparr>name = js ''Editor'', compatible_ai_clients = Some [js ''native'']\<rparr>"

definition native_client :: client where
  "native_client = \<lparr>name = js ''Native'', native_names = None\<rparr>"

definition two_ides_network :: network where
  "two_ides_network =
     \<lparr>ide_file = (\<lambda>i. if i = js ''vscode'' \<or> i = js ''cursor''
                       then Response 200 (Some (Document native_only)) else NetworkError),
      ai_client_file = (\<lambda>i. if i = js ''native''
                       then Response 200 (Some (Document native_client)) else Response 404 None),
      feature_file = (\<lambda>i. NetworkError),
      changelog_file = NetworkError\<rparr>"

definition reversed_schedule :: "task list" where
  "reversed_schedule = rev all_tasks"

section \<open>The rendered page\<close>

text \<open>
  The render functions build markup and assign it to \<open>innerHTML\<close>. The model keeps the
  elements that the parser builds from it, with what the handlers read and write: class
  lists, \<open>data-\<close> attributes, the inline \<open>display\<close> style and the \<open>onclick\<close> handler.
  The start tag of a row is fixed text around the group's identifier (\<open>group-\<close> and a
  key of \<open>ides\<close>, which is a name of \<open>IDE_FILES\<close>), and a row is kept as the element it
  becomes, with the name of the interface that its name cell shows (written through
  \<open>escapeHtml\<close>; the plain row of a single combination and the header row of a group
  show it, a tagged row shows the name of the client, which is left out). The icon of a
  cell is written with values of the data inside its attributes: it is kept as the markup
  that the code builds, and its element is what the tokenizer of the next section reads
  from that markup. A row has the cells it was written with as long as the start tag of
  each icon ends within the icon's own markup, which is so when the values are attribute
  texts (lemma \<open>parse_cell_markup\<close>).
\<close>

datatype handler = NoHandler | ToggleNote | ShowSourceModal

record element =
  classes :: "jsstring list"

record icon_span = element +
  onclick :: handler
  data_note :: "jsstring option"

record cell = icon_span +
  data_combo_key :: jsstring
  data_feature_id :: jsstring

record tr = element +
  data_group :: "jsstring option"
  display :: jsstring
  ide_name_html :: "jsstring option"
  cells :: "jsstring list"

text \<open>\<open>classList.contains\<close>, \<open>remove\<close>, \<open>add\<close> and \<open>toggle\<close> (which returns whether the token is now present).\<close>

definition has_class :: "jsstring \<Rightarrow> 'a element_scheme \<Rightarrow> bool" where
  "has_class c e = (c \<in> set (classes e))"

definition classList_remove :: "jsstring \<Rightarrow> 'a element_scheme \<Rightarrow> 'a element_scheme" where
  "classList_remove c e = e\<lparr>classes := filter (\<lambda>x. x \<noteq> c) (classes e)\<rparr>"

definition classList_add :: "jsstring \<Rightarrow> 'a element_scheme \<Rightarrow> 'a element_scheme" where
  "classList_add c e = (if has_class c e then e else e\<lparr>classes := classes e @ [c]\<rparr>)"

definition classList_toggle :: "jsstring \<Rightarrow> 'a element_scheme \<Rightarrow> 'a element_scheme \<times> bool" where
  "classList_toggle c e =
     (if has_class c e then (classList_remove c e, False) else (classList_add c e, True))"

section \<open>Markup: \<open>escapeHtml\<close> and the start tag of an icon\<close>

text \<open>
  \<open>escapeHtml\<close> sets the text of a fresh \<open>div\<close> and reads its \<open>innerHTML\<close>: the text
  serialized as the content of an element, where \<open>&\<close>, \<open><\<close>, \<open>>\<close> and the no-break space
  are replaced by their references. A double quote stays as it is.
\<close>

definition escape_unit :: "jschar \<Rightarrow> jsstring" where
  "escape_unit c =
     (if c = 0x26 then js ''&amp;''
      else if c = 0x3C then js ''&lt;''
      else if c = 0x3E then js ''&gt;''
      else if c = 0xA0 then js ''&nbsp;''
      else [c])"

definition escapeHtml :: "jsstring \<Rightarrow> jsstring" where
  "escapeHtml text = concat (map escape_unit text)"

text \<open>
  What the parser does with the markup of one icon, a \<open>span\<close> start tag followed by its
  content. The input stream is preprocessed: a carriage return, alone or before a line
  feed, becomes a line feed.
\<close>

fun normalize_newlines :: "jsstring \<Rightarrow> jsstring" where
  "normalize_newlines (c # d # cs) =
     (if c = 0x0D \<and> d = 0x0A then 0x0A # normalize_newlines cs
      else if c = 0x0D then 0x0A # normalize_newlines (d # cs)
      else c # normalize_newlines (d # cs))"
| "normalize_newlines [c] = [if c = 0x0D then 0x0A else c]"
| "normalize_newlines [] = []"

definition is_space :: "jschar \<Rightarrow> bool" where
  "is_space c = (c = 0x09 \<or> c = 0x0A \<or> c = 0x0C \<or> c = 0x20)"

definition is_alnum :: "jschar \<Rightarrow> bool" where
  "is_alnum c =
     ((0x30 \<le> c \<and> c \<le> 0x39) \<or> (0x41 \<le> c \<and> c \<le> 0x5A) \<or> (0x61 \<le> c \<and> c \<le> 0x7A))"

text \<open>
  A code unit as it is appended to a tag or attribute name (an ASCII upper-case letter
  is lowered) and to an attribute value; NUL becomes U+FFFD in both.
\<close>

definition name_unit :: "jschar \<Rightarrow> jschar" where
  "name_unit c = (if 0x41 \<le> c \<and> c \<le> 0x5A then c + 0x20 else if c = 0 then 0xFFFD else c)"

definition value_unit :: "jschar \<Rightarrow> jschar" where
  "value_unit c = (if c = 0 then 0xFFFD else c)"

text \<open>
  A character reference in an attribute value, read after its \<open>&\<close>: the code unit it
  stands for and the rest of the input. The four references that \<open>escapeHtml\<close> writes
  are decoded, and an \<open>&\<close> before anything but a letter, a digit or \<open>#\<close> stands for
  itself. Any other reference is outside the model (\<open>None\<close>); none occurs in a start tag
  that the script writes, where every \<open>&\<close> comes from \<open>escapeHtml\<close>.
\<close>

definition named_references :: "(jsstring \<times> jschar) list" where
  "named_references =
     [(js ''amp;'', 0x26), (js ''lt;'', 0x3C), (js ''gt;'', 0x3E), (js ''nbsp;'', 0xA0)]"

definition character_reference :: "jsstring \<Rightarrow> (jschar \<times> jsstring) option" where
  "character_reference cs =
     (case find (\<lambda>(n, c). take (length n) cs = n) named_references of
        Some (n, c) \<Rightarrow> Some (c, drop (length n) cs)
      | None \<Rightarrow> (case cs of
                   [] \<Rightarrow> Some (0x26, [])
                 | d # ds \<Rightarrow> if is_alnum d \<or> d = 0x23 then None else Some (0x26, cs)))"

text \<open>
  The states of the tokenizer inside a start tag, each with the name or the attribute it
  is reading. A state that reconsumes its input in another state is written with the
  step of that state. The tag is emitted at \<open>>\<close>, with its attributes in the order of the
  markup and the input that follows it; when the input ends inside the tag there is no
  tag (\<open>None\<close>).
\<close>

datatype tokenizer_state =
    TagName jsstring
  | BeforeAttributeName
  | AttributeName jsstring
  | AfterAttributeName jsstring
  | BeforeAttributeValue jsstring
  | AttributeValueDoubleQuoted jsstring jsstring
  | AttributeValueSingleQuoted jsstring jsstring
  | AttributeValueUnquoted jsstring jsstring
  | AfterAttributeValueQuoted
  | SelfClosingStartTag

record start_tag =
  tag_name :: jsstring
  attributes :: "(jsstring \<times> jsstring) list"
  content :: jsstring

function tokenize ::
  "tokenizer_state \<Rightarrow> jsstring \<Rightarrow> (jsstring \<times> jsstring) list \<Rightarrow> jsstring \<Rightarrow> start_tag option"
where
  "tokenize s t as [] = None"
| "tokenize (TagName n) t as (c # cs) =
     (if is_space c then tokenize BeforeAttributeName n as cs
      else if c = 0x2F then tokenize SelfClosingStartTag n as cs
      else if c = 0x3E then Some \<lparr>tag_name = n, attributes = as, content = cs\<rparr>
      else tokenize (TagName (n @ [name_unit c])) t as cs)"
| "tokenize BeforeAttributeName t as (c # cs) =
     (if is_space c then tokenize BeforeAttributeName t as cs
      else if c = 0x2F then tokenize SelfClosingStartTag t as cs
      else if c = 0x3E then Some \<lparr>tag_name = t, attributes = as, content = cs\<rparr>
      else tokenize (AttributeName [name_unit c]) t as cs)"
| "tokenize (AttributeName n) t as (c # cs) =
     (if is_space c then tokenize (AfterAttributeName n) t as cs
      else if c = 0x2F then tokenize SelfClosingStartTag t (as @ [(n, [])]) cs
      else if c = 0x3E then Some \<lparr>tag_name = t, attributes = as @ [(n, [])], content = cs\<rparr>
      else if c = 0x3D then tokenize (BeforeAttributeValue n) t as cs
      else tokenize (AttributeName (n @ [name_unit c])) t as cs)"
| "tokenize (AfterAttributeName n) t as (c # cs) =
     (if is_space c then tokenize (AfterAttributeName n) t as cs
      else if c = 0x2F then tokenize SelfClosingStartTag t (as @ [(n, [])]) cs
      else if c = 0x3D then tokenize (BeforeAttributeValue n) t as cs
      else if c = 0x3E then Some \<lparr>tag_name = t, attributes = as @ [(n, [])], content = cs\<rparr>
      else tokenize (AttributeName [name_unit c]) t (as @ [(n, [])]) cs)"
| "tokenize (BeforeAttributeValue n) t as (c # cs) =
     (if is_space c then tokenize (BeforeAttributeValue n) t as cs
      else if c = 0x22 then tokenize (AttributeValueDoubleQuoted n []) t as cs
      else if c = 0x27 then tokenize (AttributeValueSingleQuoted n []) t as cs
      else if c = 0x3E then Some \<lparr>tag_name = t, attributes = as @ [(n, [])], content = cs\<rparr>
      else if c = 0x26 then
        (case character_reference cs of
           None \<Rightarrow> None
         | Some (d, rest) \<Rightarrow> tokenize (AttributeValueUnquoted n [d]) t as rest)
      else tokenize (AttributeValueUnquoted n [value_unit c]) t as cs)"
| "tokenize (AttributeValueDoubleQuoted n v) t as (c # cs) =
     (if c = 0x22 then tokenize AfterAttributeValueQuoted t (as @ [(n, v)]) cs
      else if c = 0x26 then
        (case character_reference cs of
           None \<Rightarrow> None
         | Some (d, rest) \<Rightarrow> tokenize (AttributeValueDoubleQuoted n (v @ [d])) t as rest)
      else tokenize (AttributeValueDoubleQuoted n (v @ [value_unit c])) t as cs)"
| "tokenize (AttributeValueSingleQuoted n v) t as (c # cs) =
     (if c = 0x27 then tokenize AfterAttributeValueQuoted t (as @ [(n, v)]) cs
      else if c = 0x26 then
        (case character_reference cs of
           None \<Rightarrow> None
         | Some (d, rest) \<Rightarrow> tokenize (AttributeValueSingleQuoted n (v @ [d])) t as rest)
      else tokenize (AttributeValueSingleQuoted n (v @ [value_unit c])) t as cs)"
| "tokenize (AttributeValueUnquoted n v) t as (c # cs) =
     (if is_space c then tokenize BeforeAttributeName t (as @ [(n, v)]) cs
      else if c = 0x26 then
        (case character_reference cs of
           None \<Rightarrow> None
         | Some (d, rest) \<Rightarrow> tokenize (AttributeValueUnquoted n (v @ [d])) t as rest)
      else if c = 0x3E then Some \<lparr>tag_name = t, attributes = as @ [(n, v)], content = cs\<rparr>
      else tokenize (AttributeValueUnquoted n (v @ [value_unit c])) t as cs)"
| "tokenize AfterAttributeValueQuoted t as (c # cs) =
     (if is_space c then tokenize BeforeAttributeName t as cs
      else if c = 0x2F then tokenize SelfClosingStartTag t as cs
      else if c = 0x3E then Some \<lparr>tag_name = t, attributes = as, content = cs\<rparr>
      else tokenize (AttributeName [name_unit c]) t as cs)"
| "tokenize SelfClosingStartTag t as (c # cs) =
     (if c = 0x3E then Some \<lparr>tag_name = t, attributes = as, content = cs\<rparr>
      else if is_space c then tokenize BeforeAttributeName t as cs
      else if c = 0x2F then tokenize SelfClosingStartTag t as cs
      else tokenize (AttributeName [name_unit c]) t as cs)"
  by pat_completeness auto

termination
proof (relation "measure (\<lambda>(s, t, as, cs). length cs)")
  show "wf (measure (\<lambda>(s, t, as, cs). length cs))" by simp
qed (auto simp: character_reference_def split: option.splits list.splits if_splits)

text \<open>The tag open state: \<open><\<close> and an ASCII letter begin a start tag.\<close>

definition parse_start_tag :: "jsstring \<Rightarrow> start_tag option" where
  "parse_start_tag markup =
     (case normalize_newlines markup of
        c # d # cs \<Rightarrow>
          if c = 0x3C \<and> ((0x41 \<le> d \<and> d \<le> 0x5A) \<or> (0x61 \<le> d \<and> d \<le> 0x7A))
          then tokenize (TagName []) [] [] (d # cs) else None
      | _ \<Rightarrow> None)"

text \<open>
  \<open>getAttribute\<close>, which \<open>dataset\<close> reads for a \<open>data-\<close> attribute: of two attributes
  with one name the tag keeps the first.
\<close>

definition tag_attribute :: "start_tag \<Rightarrow> jsstring \<Rightarrow> jsstring option" where
  "tag_attribute tag n = map_of (attributes tag) n"

text \<open>\<open>classList\<close>: the tokens of the \<open>class\<close> attribute between white space, each once.\<close>

fun split_on_spaces :: "jsstring \<Rightarrow> jsstring \<Rightarrow> jsstring list" where
  "split_on_spaces token [] = (if token = [] then [] else [token])"
| "split_on_spaces token (c # cs) =
     (if is_space c \<or> c = 0x0D
      then (if token = [] then [] else [token]) @ split_on_spaces [] cs
      else split_on_spaces (token @ [c]) cs)"

definition class_list :: "jsstring option \<Rightarrow> jsstring list" where
  "class_list v = (case v of None \<Rightarrow> [] | Some s \<Rightarrow> rev (remdups (rev (split_on_spaces [] s))))"

text \<open>
  The inline handler of an element: the two that the script writes, or none. An
  \<open>onclick\<close> attribute with any other text is a script of its own, outside the model
  (\<open>None\<close>).
\<close>

definition handler_of :: "jsstring option \<Rightarrow> handler option" where
  "handler_of v =
     (case v of
        None \<Rightarrow> Some NoHandler
      | Some script \<Rightarrow>
          if script = js ''toggleNote(this)'' then Some ToggleNote
          else if script = js ''showSourceModal(this)'' then Some ShowSourceModal
          else None)"

text \<open>
  The element of an icon of the plugin matrix, and of a cell of the feature matrix, read
  from its markup. \<open>showSourceModal\<close> reads \<open>dataset.comboKey\<close> and \<open>dataset.featureId\<close>
  as strings: an element that lacks one of the two attributes is outside the model
  (\<open>None\<close>).
\<close>

definition icon_element :: "jsstring \<Rightarrow> icon_span option" where
  "icon_element markup =
     (case parse_start_tag markup of
        None \<Rightarrow> None
      | Some tag \<Rightarrow>
          (case handler_of (tag_attribute tag (js ''onclick'')) of
             None \<Rightarrow> None
           | Some h \<Rightarrow> Some \<lparr>classes = class_list (tag_attribute tag (js ''class'')),
                              onclick = h,
                              data_note = tag_attribute tag (js ''data-note'')\<rparr>))"

definition cell_element :: "jsstring \<Rightarrow> cell option" where
  "cell_element markup =
     (case parse_start_tag markup of
        None \<Rightarrow> None
      | Some tag \<Rightarrow>
          (case (handler_of (tag_attribute tag (js ''onclick'')),
                 tag_attribute tag (js ''data-combo-key''),
                 tag_attribute tag (js ''data-feature-id'')) of
             (Some h, Some k, Some f) \<Rightarrow>
               Some \<lparr>classes = class_list (tag_attribute tag (js ''class'')),
                      onclick = h,
                      data_note = tag_attribute tag (js ''data-note''),
                      data_combo_key = k,
                      data_feature_id = f\<rparr>
           | _ \<Rightarrow> None))"

section \<open>Support cells: \<open>renderSupportCell\<close>\<close>

text \<open>
  \<open>SUPPORT_ICONS[code] || SUPPORT_ICONS.u\<close>. A member of \<open>Object.prototype\<close> would be
  truthy and have no \<open>class\<close> or \<open>icon\<close>, which a template literal prints as
  \<open>undefined\<close>.
\<close>

definition icon_for :: "jsstring \<Rightarrow> icon_info" where
  "icon_for c =
     (case js_get SUPPORT_ICONS c of
        Own i \<Rightarrow> i
      | Inherited \<Rightarrow> \<lparr>icon = js ''undefined'', icon_class = js ''undefined'',
                        icon_title = js ''undefined''\<rparr>
      | Absent \<Rightarrow> \<lparr>icon = js ''?'', icon_class = js ''support-u'', icon_title = js ''Unknown''\<rparr>)"

text \<open>
  \<open>if (noteRef && notes && notes[noteRef]) noteText = notes[noteRef]\<close>, and the attribute
  is written when \<open>noteText\<close> is truthy. The reference is the one \<open>parseSupport\<close>
  returned, a string of digits, which names no member of \<open>Object.prototype\<close>
  (lemma \<open>digits_not_inherited\<close>): the read is an own note or undefined.
\<close>

definition note_text :: "jsstring option \<Rightarrow> jsstring jsobject option \<Rightarrow> jsstring option" where
  "note_text r ns =
     (case r of
        None \<Rightarrow> None
      | Some ref \<Rightarrow>
          if ref = [] then None
          else (case ns of
                  None \<Rightarrow> None
                | Some m \<Rightarrow> (case js_get m ref of
                               Own t \<Rightarrow> if t = [] then None else Some t
                             | _ \<Rightarrow> None)))"

text \<open>\<open>source ? ' has-source' : ''\<close> for a source entry: an empty URL string is falsy.\<close>

fun source_truthy :: "source property \<Rightarrow> bool" where
  "source_truthy Absent = False"
| "source_truthy (Own (SourceUrl u)) = (u \<noteq> [])"
| "source_truthy (Own (SourceRecord u e)) = True"
| "source_truthy Inherited = True"

text \<open>
  \<open>renderSupportCell\<close> returns the markup of the icon. The combination key, the feature
  identifier and the note are written through \<open>escapeHtml\<close> between double quotes.
\<close>

definition renderSupportCell ::
  "jsstring option \<Rightarrow> jsstring jsobject option \<Rightarrow> source property \<Rightarrow> jsstring \<Rightarrow> jsstring \<Rightarrow> jsstring"
where
  \<open>renderSupportCell support ns src comboKey featureId =
     (let p = parseSupport support;
          iconInfo = icon_for (code p);
          noteText = note_text (noteRef p) ns;
          dataAttrs = js ''data-combo-key="'' @ escapeHtml comboKey
                      @ js ''" data-feature-id="'' @ escapeHtml featureId @ js ''"'';
          noteAttr = (case noteText of
                        Some t \<Rightarrow> js '' data-note="'' @ escapeHtml t @ js ''"''
                      | None \<Rightarrow> []);
          hasSource = (if source_truthy src then js '' has-source'' else [])
      in js ''<span class="support-icon '' @ icon_class iconInfo @ hasSource @ js ''"''
         @ noteAttr @ js '' '' @ dataAttrs @ js '' onclick="showSourceModal(this)">''
         @ icon iconInfo @ js ''</span>'')\<close>

section \<open>The feature matrix: \<open>renderFeaturesMatrix\<close>\<close>

datatype js_error = TypeError

text \<open>
  \<open>FEATURE_FILES.map(id => features[id]).filter(f => f)\<close>. No name of \<open>FEATURE_FILES\<close>
  is a member of \<open>Object.prototype\<close> (lemma \<open>FEATURE_FILES_not_inherited\<close>), so each read
  is a stored feature or undefined.
\<close>

definition feature_list :: "app_state \<Rightarrow> feature list" where
  "feature_list st =
     concat (map (\<lambda>i. case js_get (features st) i of Own f \<Rightarrow> [f] | _ \<Rightarrow> []) FEATURE_FILES)"

text \<open>
  \<open>groupedByIde\<close>, a plain object again. For an identifier that names a member of
  \<open>Object.prototype\<close> the guard \<open>!groupedByIde[ideId]\<close> is false with no group stored, and
  \<open>.combos.push\<close> then throws.
\<close>

record group =
  group_ide :: interface
  group_combos :: "combination list"

fun group_loop :: "combination list \<Rightarrow> group jsobject \<Rightarrow> js_error + group jsobject" where
  "group_loop [] g = Inr g"
| "group_loop (combo # rest) g =
     (let g1 = (if \<not> truthy (js_get g (ideId combo))
                then js_set g (ideId combo) \<lparr>group_ide = ide combo, group_combos = []\<rparr>
                else g)
      in case js_get g1 (ideId combo) of
           Own grp \<Rightarrow> group_loop rest (js_set g1 (ideId combo) (grp\<lparr>group_combos := group_combos grp @ [combo]\<rparr>))
         | _ \<Rightarrow> Inl TypeError)"

text \<open>
  \<open>Array.prototype.sort\<close> with a comparison function: the sort is stable, and for a
  consistent comparison its result is the one stably sorted arrangement, which insertion
  from the right computes. A negative or zero \<open>cmp x y\<close> leaves \<open>x\<close> before \<open>y\<close>.
\<close>

fun insert_sorted :: "('a \<Rightarrow> 'a \<Rightarrow> int) \<Rightarrow> 'a \<Rightarrow> 'a list \<Rightarrow> 'a list" where
  "insert_sorted cmp x [] = [x]"
| "insert_sorted cmp x (y # ys) =
     (if cmp x y \<le> 0 then x # y # ys else y # insert_sorted cmp x ys)"

definition array_sort :: "('a \<Rightarrow> 'a \<Rightarrow> int) \<Rightarrow> 'a list \<Rightarrow> 'a list" where
  "array_sort cmp xs = foldr (insert_sorted cmp) xs []"

text \<open>
  The comparison function of line 294 to 298. The source sorts the keys and reads
  \<open>groupedByIde[a]\<close> for each; here each key travels with its group. \<open>localeCompare\<close> is
  the platform's collation of strings, a parameter of the model.
\<close>

definition group_compare ::
  "(jsstring \<Rightarrow> jsstring \<Rightarrow> int) \<Rightarrow> jsstring \<times> group \<Rightarrow> jsstring \<times> group \<Rightarrow> int"
where
  "group_compare localeCompare a b =
     (let countDiff = int (length (group_combos (snd b))) - int (length (group_combos (snd a)))
      in if countDiff \<noteq> 0 then countDiff
         else localeCompare (name (group_ide (snd a))) (name (group_ide (snd b))))"

definition sorted_groups ::
  "(jsstring \<Rightarrow> jsstring \<Rightarrow> int) \<Rightarrow> group jsobject \<Rightarrow> (jsstring \<times> group) list"
where
  "sorted_groups localeCompare groupedByIde = array_sort (group_compare localeCompare) groupedByIde"

text \<open>
  The markup of the cells of one row. The key of a combination contains \<open>+\<close> and names no member of
  \<open>Object.prototype\<close> (lemma \<open>plus_key_not_inherited\<close>): \<open>feature.stats[combo.key]\<close> is
  an own support string or undefined.
\<close>

definition own_value :: "'a property \<Rightarrow> 'a option" where
  "own_value p = (case p of Own v \<Rightarrow> Some v | _ \<Rightarrow> None)"

definition row_cells :: "feature list \<Rightarrow> combination \<Rightarrow> jsstring list" where
  "row_cells featureList combo =
     map (\<lambda>f. renderSupportCell
                (case stats f of None \<Rightarrow> None | Some m \<Rightarrow> own_value (js_get m (key combo)))
                (feature_notes f)
                (case sources f of None \<Rightarrow> Absent | Some m \<Rightarrow> js_get m (key combo))
                (key combo) (feature_id f))
         featureList"

text \<open>
  The rows of one group: a single plain row for an interface with one combination,
  otherwise a header row with \<open>data-group\<close> and one hidden row per combination, tagged
  with the group's identifier as a class. The plain row and the header row show
  \<open>escapeHtml(ide.name)\<close>.
\<close>

definition group_rows :: "feature list \<Rightarrow> jsstring \<times> group \<Rightarrow> tr list" where
  "group_rows featureList entry =
     (let ide = group_ide (snd entry);
          groupId = js ''group-'' @ fst entry in
      case group_combos (snd entry) of
        [combo] \<Rightarrow> [\<lparr>classes = [], data_group = None, display = [],
                      ide_name_html = Some (escapeHtml (name ide)),
                      cells = row_cells featureList combo\<rparr>]
      | cs \<Rightarrow> \<lparr>classes = [js ''ide-group-header''], data_group = Some groupId, display = [],
                 ide_name_html = Some (escapeHtml (name ide)), cells = []\<rparr>
              # map (\<lambda>combo. \<lparr>classes = [js ''ide-group-row'', groupId], data_group = None,
                                display = js ''none'', ide_name_html = None,
                                cells = row_cells featureList combo\<rparr>) cs)"

datatype view = NoData | MatrixTable "feature list" "tr list"

definition renderFeaturesMatrix ::
  "(jsstring \<Rightarrow> jsstring \<Rightarrow> int) \<Rightarrow> app_state \<Rightarrow> js_error + view"
where
  "renderFeaturesMatrix localeCompare st =
     (let cs = getClientCombinations st in
      if cs = [] \<or> features st = [] then Inr NoData
      else
        let featureList = feature_list st in
        case group_loop cs [] of
          Inl e \<Rightarrow> Inl e
        | Inr groupedByIde \<Rightarrow>
            Inr (MatrixTable featureList
                   (concat (map (group_rows featureList)
                              (sorted_groups localeCompare groupedByIde)))))"

section \<open>Collapsing a group: \<open>toggleGroup\<close>\<close>

text \<open>
  The rows of the page are those of the feature table (no other \<open>tr\<close> of the page has a
  class or a \<open>data-group\<close>). \<open>querySelector\<close> returns the first row with the
  \<open>data-group\<close>, or \<open>null\<close>, on which \<open>header.classList\<close> throws. \<open>querySelectorAll\<close>
  collects the rows whose class list has the identifier before the header's class is
  toggled, so the display is written on the rows as they were selected, and the one
  header row then gets or loses \<open>expanded\<close>.
\<close>

fun update_first :: "('a \<Rightarrow> bool) \<Rightarrow> ('a \<Rightarrow> 'a) \<Rightarrow> 'a list \<Rightarrow> 'a list" where
  "update_first p f [] = []"
| "update_first p f (x # xs) = (if p x then f x # xs else x # update_first p f xs)"

definition toggleGroup :: "jsstring \<Rightarrow> tr list \<Rightarrow> js_error + tr list" where
  "toggleGroup groupId rows =
     (case find (\<lambda>r. data_group r = Some groupId) rows of
        None \<Rightarrow> Inl TypeError
      | Some header \<Rightarrow>
          let isExpanded = snd (classList_toggle (js ''expanded'') header) in
          Inr (update_first (\<lambda>r. data_group r = Some groupId)
                 (\<lambda>r. fst (classList_toggle (js ''expanded'') r))
                 (map (\<lambda>r. if has_class groupId r
                            then r\<lparr>display := (if isExpanded then [] else js ''none'')\<rparr>
                            else r) rows)))"

text \<open>A row is visible unless its inline style hides it.\<close>

definition visible :: "tr \<Rightarrow> bool" where
  "visible r = (display r \<noteq> js ''none'')"

text \<open>
  A sequence of clicks on header rows: the header with \<open>data-group\<close> \<open>g\<close> carries
  \<open>onclick="toggleGroup('g')"\<close>.
\<close>

fun click_headers :: "jsstring list \<Rightarrow> tr list \<Rightarrow> js_error + tr list" where
  "click_headers [] rows = Inr rows"
| "click_headers (g # gs) rows =
     (case toggleGroup g rows of Inl e \<Rightarrow> Inl e | Inr rows' \<Rightarrow> click_headers gs rows')"

section \<open>Note tooltips: \<open>toggleNote\<close> and the document listener\<close>

text \<open>
  The markup of the icons that \<open>renderPluginsMatrix\<close> writes (lines 220, 225 and 244):
  the native cell of a row, which carries the note and the \<open>toggleNote\<close> handler when the
  interface has a native name, and the cell of a plugin column. The native name is
  written through \<open>escapeHtml\<close> between double quotes.
\<close>

definition native_cell :: "bool \<Rightarrow> jsstring option \<Rightarrow> jsstring" where
  \<open>native_cell hasNative nativeName =
     (let nativeNoteAttr = (case nonempty nativeName of
                              Some n \<Rightarrow> js '' data-note="'' @ escapeHtml n @ js ''"''
                            | None \<Rightarrow> []);
          nativeOnclick = (case nonempty nativeName of
                             Some n \<Rightarrow> js '' onclick="toggleNote(this)"''
                           | None \<Rightarrow> [])
      in js ''<span class="support-icon ''
         @ (if hasNative then js ''support-y'' else js ''support-n'') @ js ''"''
         @ nativeNoteAttr @ nativeOnclick @ js ''>''
         @ (if hasNative then js ''&#10003;'' else js ''&#10005;'') @ js ''</span>'')\<close>

definition plugin_cell :: "bool \<Rightarrow> jsstring" where
  \<open>plugin_cell isCompatible =
     js ''<span class="support-icon ''
     @ (if isCompatible then js ''support-y'' else js ''support-n'')
     @ js ''" title="'' @ (if isCompatible then js ''Available'' else js ''Not available'')
     @ js ''">'' @ (if isCompatible then js ''&#10003;'' else js ''&#10005;'') @ js ''</span>''\<close>

text \<open>
  The icon spans of the page in document order; an element is its position in that list.
  \<open>selected\<close> is the selector \<open>.support-icon.show-note\<close>.
\<close>

definition selected :: "'a element_scheme \<Rightarrow> bool" where
  "selected e = (has_class (js ''support-icon'') e \<and> has_class (js ''show-note'') e)"

definition toggleNote :: "nat \<Rightarrow> 'a icon_span_scheme list \<Rightarrow> 'a icon_span_scheme list" where
  "toggleNote i spans =
     (let cleared = map (\<lambda>(j, el). if selected el \<and> j \<noteq> i
                                     then classList_remove (js ''show-note'') el else el)
                        (enumerate 0 spans)
      in if i < length cleared
         then cleared[i := fst (classList_toggle (js ''show-note'') (cleared ! i))]
         else cleared)"

text \<open>The listener that line 489 adds to the document.\<close>

definition document_click :: "'a icon_span_scheme list \<Rightarrow> 'a icon_span_scheme list" where
  "document_click spans =
     map (\<lambda>el. if selected el then classList_remove (js ''show-note'') el else el) spans"

text \<open>
  A click on an icon runs its inline handler and then bubbles up to the document, unless
  the handler stopped it: \<open>toggleNote\<close> and \<open>showSourceModal\<close> both begin with
  \<open>event.stopPropagation()\<close>. \<open>showSourceModal\<close> changes no icon. Any other click that
  reaches the document is \<open>ClickElsewhere\<close>.
\<close>

datatype click = ClickIcon nat | ClickElsewhere

fun stops_propagation :: "handler \<Rightarrow> bool" where
  "stops_propagation NoHandler = False"
| "stops_propagation ToggleNote = True"
| "stops_propagation ShowSourceModal = True"

fun dispatch :: "click \<Rightarrow> 'a icon_span_scheme list \<Rightarrow> 'a icon_span_scheme list" where
  "dispatch ClickElsewhere spans = document_click spans"
| "dispatch (ClickIcon i) spans =
     (if i < length spans
      then (let h = onclick (spans ! i);
                handled = (case h of ToggleNote \<Rightarrow> toggleNote i spans | _ \<Rightarrow> spans)
            in if stops_propagation h then handled else document_click handled)
      else spans)"

definition shown_count :: "'a icon_span_scheme list \<Rightarrow> nat" where
  "shown_count spans = length (filter selected spans)"

section \<open>The detail surface: \<open>showSourceModal\<close>\<close>

text \<open>
  The overlay, with the parts that \<open>showSourceModal\<close> writes: the \<open>active\<close> class, the
  title, and the note, evidence and link elements, each with its content and its inline
  display. (The client label is text derived from names and is left out.) A new overlay
  has empty elements.
\<close>

datatype evidence_view = EvidenceEmpty | EvidenceText jsstring | NoEvidenceRecorded

datatype link_view = LinkEmpty | SourceLink jsstring | NoSourceUrl

record modal =
  active :: bool
  modal_title :: jsstring
  note_body :: "jsstring option"
  note_display :: jsstring
  evidence :: evidence_view
  evidence_display :: jsstring
  link :: link_view
  link_display :: jsstring

definition new_modal :: modal where
  "new_modal = \<lparr>active = False, modal_title = [], note_body = None, note_display = [],
                 evidence = EvidenceEmpty, evidence_display = [],
                 link = LinkEmpty, link_display = []\<rparr>"

text \<open>\<open>feature.sources?.[comboKey]\<close>\<close>

definition source_entry :: "feature \<Rightarrow> jsstring \<Rightarrow> source property" where
  "source_entry f comboKey =
     (case sources f of None \<Rightarrow> Absent | Some srcs \<Rightarrow> js_get srcs comboKey)"

text \<open>
  \<open>source ? (typeof source === 'string' ? source : source.url) : null\<close> and
  \<open>source && typeof source === 'object' ? source.evidence : null\<close>. A member of
  \<open>Object.prototype\<close> has neither a \<open>url\<close> nor an \<open>evidence\<close>.
\<close>

definition source_url :: "source property \<Rightarrow> jsstring option" where
  "source_url src =
     (case src of
        Own (SourceUrl u) \<Rightarrow> if u = [] then None else Some u
      | Own (SourceRecord u e) \<Rightarrow> u
      | _ \<Rightarrow> None)"

definition source_evidence :: "source property \<Rightarrow> jsstring option" where
  "source_evidence src = (case src of Own (SourceRecord u e) \<Rightarrow> e | _ \<Rightarrow> None)"

text \<open>
  \<open>showSourceModal\<close>, from the element's \<open>dataset\<close> to the overlay: the overlay of the
  page before (\<open>None\<close> when the page has none yet) and after.
\<close>

definition showSourceModal :: "app_state \<Rightarrow> cell \<Rightarrow> modal option \<Rightarrow> modal option" where
  "showSourceModal st element m =
     (let comboKey = data_combo_key element;
          featureId = data_feature_id element;
          note = data_note element;
          feature = js_get (features st) featureId
      in if \<not> truthy feature then m
         else
           let featureTitle = (case feature of
                                 Own f \<Rightarrow> (case nonempty (title f) of Some t \<Rightarrow> t | None \<Rightarrow> featureId)
                               | _ \<Rightarrow> featureId);
               src = (case feature of Own f \<Rightarrow> source_entry f comboKey | _ \<Rightarrow> Absent);
               url = source_url src;
               ev = source_evidence src;
               modal0 = (case m of None \<Rightarrow> new_modal | Some x \<Rightarrow> x)
           in Some (modal0
                \<lparr>modal_title := featureTitle,
                 note_body := (case nonempty note of Some n \<Rightarrow> Some n | None \<Rightarrow> note_body modal0),
                 note_display := (case nonempty note of Some n \<Rightarrow> js ''block'' | None \<Rightarrow> js ''none''),
                 evidence := (case nonempty ev of Some e \<Rightarrow> EvidenceText e | None \<Rightarrow> NoEvidenceRecorded),
                 evidence_display := js ''block'',
                 link := (case nonempty url of Some u \<Rightarrow> SourceLink u | None \<Rightarrow> NoSourceUrl),
                 link_display := js ''block'',
                 active := True\<rparr>))"

text \<open>\<open>closeSourceModal\<close>\<close>

definition closeSourceModal :: "modal option \<Rightarrow> modal option" where
  "closeSourceModal m = (case m of None \<Rightarrow> None | Some x \<Rightarrow> Some (x\<lparr>active := False\<rparr>))"

text \<open>Names for the closed forms of the two loops and of the schedule.\<close>

definition combination_of :: "client jsobject \<Rightarrow> jsstring \<Rightarrow> interface \<Rightarrow> jsstring \<Rightarrow> combination" where
  "combination_of cl iid i aid =
     \<lparr>key = iid @ js ''+'' @ aid, ide = i, ideId = iid, aiClient = js_get cl aid, aiClientId = aid\<rparr>"

definition resolving :: "client jsobject \<Rightarrow> interface \<Rightarrow> jsstring list" where
  "resolving cl i = filter (\<lambda>aid. truthy (js_get cl aid)) (or_empty (compatible_ai_clients i))"

definition ide_ids :: "task list \<Rightarrow> jsstring list" where
  "ide_ids schedule = concat (map (\<lambda>t. case t of LoadIde i \<Rightarrow> [i] | _ \<Rightarrow> []) schedule)"

text \<open>The combinations of a list of interfaces, and their groups, in closed form.\<close>

definition blocks :: "client jsobject \<Rightarrow> interface jsobject \<Rightarrow> combination list" where
  "blocks cl es = concat (map (\<lambda>(iid, i). map (combination_of cl iid i) (resolving cl i)) es)"

definition groups_of :: "client jsobject \<Rightarrow> interface jsobject \<Rightarrow> group jsobject" where
  "groups_of cl es =
     concat (map (\<lambda>(iid, i).
        if resolving cl i = [] then []
        else [(iid, \<lparr>group_ide = i, group_combos = map (combination_of cl iid i) (resolving cl i)\<rparr>)]) es)"

text \<open>
  The groups of a state: one for each interface with at least one combination, in the
  order of \<open>ides\<close>, each with the combinations of its interface.
\<close>

definition interface_groups :: "app_state \<Rightarrow> group jsobject" where
  "interface_groups st =
     concat (map (\<lambda>(iid, i).
        if resolving (aiClients st) i = [] then []
        else [(iid, \<lparr>group_ide = i,
                      group_combos = map (combination_of (aiClients st) iid i) (resolving (aiClients st) i)\<rparr>)])
       (ides st))"

text \<open>The rows of the table that \<open>renderFeaturesMatrix\<close> builds for a state.\<close>

definition matrix_rows :: "(jsstring \<Rightarrow> jsstring \<Rightarrow> int) \<Rightarrow> app_state \<Rightarrow> tr list" where
  "matrix_rows lc st =
     concat (map (group_rows (feature_list st)) (sorted_groups lc (interface_groups st)))"


text \<open>
  What the sort needs of \<open>localeCompare\<close> to have a defined result: any two strings
  are comparable, and the comparison is transitive.
\<close>

definition consistent_comparison :: "(jsstring \<Rightarrow> jsstring \<Rightarrow> int) \<Rightarrow> bool" where
  "consistent_comparison cmp =
     ((\<forall>x y. cmp x y \<le> 0 \<or> cmp y x \<le> 0)
      \<and> (\<forall>x y z. cmp x y \<le> 0 \<and> cmp y z \<le> 0 \<longrightarrow> cmp x z \<le> 0))"


text \<open>
  One such collation, for the examples: the order of the code units (what
  \<open>localeCompare\<close> gives for ASCII letters of one case).
\<close>

fun code_unit_compare :: "jsstring \<Rightarrow> jsstring \<Rightarrow> int" where
  "code_unit_compare [] [] = 0"
| "code_unit_compare [] (y # ys) = - 1"
| "code_unit_compare (x # xs) [] = 1"
| "code_unit_compare (x # xs) (y # ys) =
     (if x < y then - 1 else if y < x then 1 else code_unit_compare xs ys)"


text \<open>
  A network for the examples: four interfaces and four clients exist, the feature
  \<open>tools\<close> has data for one combination, the file of \<open>roots\<close> answers 404, the other
  features are empty documents.
\<close>

definition example_network :: network where
  "example_network =
     \<lparr>ide_file = (\<lambda>i.
        if i = js ''vscode'' then Response 200 (Some (Document
            \<lparr>name = js ''VS Code'', compatible_ai_clients = Some [js ''github-copilot'', js ''cline'']\<rparr>))
        else if i = js ''cursor'' then Response 200 (Some (Document
            \<lparr>name = js ''Cursor'', compatible_ai_clients = Some [js ''native'', js ''cline'']\<rparr>))
        else if i = js ''jetbrains'' then Response 200 (Some (Document
            \<lparr>name = js ''JetBrains'',
             compatible_ai_clients = Some [js ''github-copilot'', js ''cline'', js ''continue'']\<rparr>))
        else if i = js ''zed'' then Response 200 (Some (Document
            \<lparr>name = js ''Zed'', compatible_ai_clients = Some [js ''native'']\<rparr>))
        else NetworkError),
      ai_client_file = (\<lambda>i.
        if i \<in> set (map js [''github-copilot'', ''cline'', ''continue'', ''native''])
        then Response 200 (Some (Document \<lparr>name = i, native_names = None\<rparr>))
        else Response 404 None),
      feature_file = (\<lambda>i.
        if i = js ''tools'' then Response 200 (Some (Document
            \<lparr>feature_id = js ''tools'', title = Some (js ''Tools''),
             stats = Some [(js ''vscode+cline'', js ''y #1'')],
             sources = Some [(js ''vscode+cline'',
                              SourceRecord (Some (js ''https://example.com/cline'')) (Some (js ''Release notes'')))],
             feature_notes = Some [(js ''1'', js ''Since 1.2'')]\<rparr>))
        else if i = js ''roots'' then Response 404 None
        else Response 200 (Some (Document
            \<lparr>feature_id = i, title = None, stats = None, sources = None, feature_notes = None\<rparr>))),
      changelog_file = Response 200 None\<rparr>"


text \<open>The \<open>data-group\<close> values of the rows that have one: the header rows.\<close>

definition headers :: "tr list \<Rightarrow> jsstring list" where
  "headers rows = concat (map (\<lambda>r. case data_group r of Some g \<Rightarrow> [g] | None \<Rightarrow> []) rows)"

text \<open>
  The three kinds of row that \<open>group_rows\<close> builds: a plain row, a header row of a
  group, and a hidden row tagged with its group.
\<close>

definition rendered_row :: "tr \<Rightarrow> bool" where
  "rendered_row r =
     ((classes r = [] \<and> data_group r = None)
      \<or> (classes r = [js ''ide-group-header''] \<and> (\<exists>k. data_group r = Some (js ''group-'' @ k)))
      \<or> (data_group r = None \<and> display r = js ''none''
          \<and> (\<exists>k. classes r = [js ''ide-group-row'', js ''group-'' @ k])))"

text \<open>
  A rendered row in the state that a choice \<open>f\<close> of expanded groups gives it: a header
  of an expanded group has the class \<open>expanded\<close>, and a tagged row of it is displayed.
\<close>

definition expansion :: "(jsstring \<Rightarrow> bool) \<Rightarrow> tr \<Rightarrow> tr" where
  "expansion f r =
     (case data_group r of
        Some g \<Rightarrow> if f g then r\<lparr>classes := classes r @ [js ''expanded'']\<rparr> else r
      | None \<Rightarrow> (case classes r of
                   [c, g] \<Rightarrow> r\<lparr>display := (if f g then [] else js ''none'')\<rparr>
                 | _ \<Rightarrow> r))"

text \<open>
  Three icons of the plugin matrix, for an example: the elements of two native cells with
  a note (and so with the \<open>toggleNote\<close> handler) and of one plugin cell
  (lemma \<open>example_spans_rendered\<close>).
\<close>

definition example_spans :: "icon_span list" where
  "example_spans =
     [\<lparr>classes = [js ''support-icon'', js ''support-y''], onclick = ToggleNote,
       data_note = Some (js ''Copilot Chat'')\<rparr>,
      \<lparr>classes = [js ''support-icon'', js ''support-y''], onclick = ToggleNote,
       data_note = Some (js ''Cursor Agent'')\<rparr>,
      \<lparr>classes = [js ''support-icon'', js ''support-n''], onclick = NoHandler,
       data_note = None\<rparr>]"

text \<open>
  A feature with a structured source for one combination and a bare URL for another, the
  element of the cell that \<open>renderSupportCell\<close> writes for the first
  (lemma \<open>cline_cell_rendered\<close>), and the same feature with an empty evidence string.
\<close>

definition cline_key :: jsstring where
  "cline_key = js ''vscode'' @ js ''+'' @ js ''cline''"

definition tools_feature :: feature where
  "tools_feature =
     \<lparr>feature_id = js ''tools'', title = Some (js ''Tools''),
      stats = Some [(cline_key, js ''y #1'')],
      sources = Some [(cline_key,
         SourceRecord (Some (js ''https://example.com/cline'')) (Some (js ''Release notes''))),
         (js ''cursor+cline'', SourceUrl (js ''https://example.com/cursor''))],
      feature_notes = Some [(js ''1'', js ''Since 1.2'')]\<rparr>"

definition tools_state :: app_state where
  "tools_state = initial_state\<lparr>features := [(js ''tools'', tools_feature)]\<rparr>"

definition cline_cell :: cell where
  "cline_cell =
     \<lparr>classes = [js ''support-icon'', js ''support-y'', js ''has-source''],
      onclick = ShowSourceModal,
      data_note = Some (js ''Since 1.2''),
      data_combo_key = cline_key,
      data_feature_id = js ''tools''\<rparr>"



text \<open>
  A text that an attribute value between double quotes holds whole: it has no double
  quote, which would end the value, no NUL, which the tokenizer replaces, and no carriage
  return, which the preprocessing replaces. A plain text is one that \<open>escapeHtml\<close> leaves
  as it is.
\<close>

definition attribute_text :: "jsstring \<Rightarrow> bool" where
  "attribute_text s = (0x22 \<notin> set s \<and> 0x00 \<notin> set s \<and> 0x0D \<notin> set s)"

definition plain_text :: "jsstring \<Rightarrow> bool" where
  "plain_text s = (\<forall>c\<in>set s. c \<noteq> 0x26 \<and> c \<noteq> 0x3C \<and> c \<noteq> 0x3E \<and> c \<noteq> 0xA0)"





text \<open>
  Modelled from the spec: \<open>String.prototype.localeCompare\<close>, which the comparison
  function of line 294 to 298 calls on the names, is the platform's collation and is not
  in the source. The specification describes the comparison of the names as
  case-insensitive and lexicographic: here the names are compared code unit by code unit
  after their ASCII letters are folded to lower case. What a locale adds to this order is
  not in the specification and not in the model.
\<close>

definition to_lower :: "jschar \<Rightarrow> jschar" where
  "to_lower c = (if 0x41 \<le> c \<and> c \<le> 0x5A then c + 0x20 else c)"

definition localeCompare :: "jsstring \<Rightarrow> jsstring \<Rightarrow> int" where
  "localeCompare a b = code_unit_compare (map to_lower a) (map to_lower b)"

text \<open>
  The element of a cell that \<open>renderSupportCell\<close> writes for a feature document whose
  \<open>id\<close> is \<open>constructor\<close> (lemma \<open>constructor_cell_rendered\<close>), and an overlay that was
  opened and closed before.
\<close>

definition constructor_cell :: cell where
  "constructor_cell =
     \<lparr>classes = [js ''support-icon'', js ''support-u''],
      onclick = ShowSourceModal,
      data_note = None,
      data_combo_key = cline_key,
      data_feature_id = js ''constructor''\<rparr>"

definition closed_modal :: "modal option" where
  "closed_modal = closeSourceModal (showSourceModal tools_state cline_cell None)"

section \<open>Properties of \<open>parseSupport\<close>\<close>

lemma hash_not_whitespace: "\<not> is_whitespace hash"
  by (simp add: is_whitespace_def hash_def)

lemma is_code_char_codes: "is_code_char c \<Longrightarrow> [c] \<in> set support_codes"
  by (auto simp: is_code_char_def support_codes_def js_def)

lemma match_support_result:
  assumes "match_support s = Some (c, g)"
  shows "c \<in> set support_codes \<and>
         (g = None \<or> (\<exists>ds. g = Some ds \<and> ds \<noteq> [] \<and> list_all is_digit ds))"
  using assms
  by (auto simp: match_support_def is_code_char_codes split: list.splits if_splits)

text \<open>The scan accepts exactly the language of the pattern.\<close>

lemma source_grammar_match: "source_grammar s \<longleftrightarrow> match_support s \<noteq> None"
proof
  assume "source_grammar s"
  then obtain c ws where c: "is_code_char c" and ws: "list_all is_whitespace ws"
    and s: "s = c # ws \<or> (\<exists>ds. ds \<noteq> [] \<and> list_all is_digit ds \<and> s = c # ws @ hash # ds)"
    unfolding source_grammar_def by blast
  from ws have dw: "dropWhile is_whitespace ws = []"
    by (simp add: list_all_iff)
  from ws have dw2: "\<And>t. dropWhile is_whitespace (ws @ hash # t) = hash # t"
    by (simp add: list_all_iff dropWhile_append3 hash_not_whitespace)
  from s show "match_support s \<noteq> None"
  proof
    assume "s = c # ws"
    then show ?thesis by (simp add: match_support_def c dw)
  next
    assume "\<exists>ds. ds \<noteq> [] \<and> list_all is_digit ds \<and> s = c # ws @ hash # ds"
    then obtain ds where "ds \<noteq> []" "list_all is_digit ds" "s = c # ws @ hash # ds" by blast
    then show ?thesis by (simp add: match_support_def c dw2)
  qed
next
  assume m: "match_support s \<noteq> None"
  then obtain c rest where s: "s = c # rest" and c: "is_code_char c"
    by (auto simp: match_support_def split: list.splits if_splits)
  define ws where "ws = takeWhile is_whitespace rest"
  define tl where "tl = dropWhile is_whitespace rest"
  have rest: "rest = ws @ tl" by (simp add: ws_def tl_def)
  have wsall: "list_all is_whitespace ws"
    by (auto simp: ws_def list_all_iff dest: set_takeWhileD)
  from m s c have "tl = [] \<or> (\<exists>ds. tl = hash # ds \<and> ds \<noteq> [] \<and> list_all is_digit ds)"
    by (auto simp: match_support_def tl_def split: list.splits if_splits)
  with s rest c wsall show "source_grammar s"
    unfolding source_grammar_def by auto
qed

text \<open>Every string of the specification's grammar is one of the pattern's.\<close>

lemma spec_grammar_source_grammar: "spec_grammar s \<Longrightarrow> source_grammar s"
proof -
  assume sg: "spec_grammar s"
  then obtain c rest where s: "s = c # rest" and c: "is_code_char c"
    by (auto simp: spec_grammar_def split: list.splits)
  define ws where "ws = takeWhile (\<lambda>x. x = space) rest"
  have rest: "rest = ws @ dropWhile (\<lambda>x. x = space) rest" by (simp add: ws_def)
  have "\<forall>x\<in>set ws. x = space" by (auto simp: ws_def dest: set_takeWhileD)
  then have wsall: "list_all is_whitespace ws"
    by (simp add: list_all_iff is_whitespace_def space_def)
  from sg s have "rest = [] \<or> (\<exists>ds. dropWhile (\<lambda>x. x = space) rest = hash # ds
      \<and> ds \<noteq> [] \<and> list_all is_digit ds)"
    by (auto simp: spec_grammar_def split: list.splits)
  then show ?thesis
  proof
    assume "rest = []"
    with s c show ?thesis unfolding source_grammar_def
      by (intro exI[of _ c] exI[of _ "[]"]) simp
  next
    assume "\<exists>ds. dropWhile (\<lambda>x. x = space) rest = hash # ds \<and> ds \<noteq> [] \<and> list_all is_digit ds"
    then obtain ds where d: "dropWhile (\<lambda>x. x = space) rest = hash # ds" "ds \<noteq> []"
      "list_all is_digit ds"
      by blast
    with rest have "s = c # ws @ hash # ds" using s by simp
    with c wsall d show ?thesis unfolding source_grammar_def by blast
  qed
qed

lemmas parse_eval = parseSupport_def match_support_def js_def is_code_char_def
  is_whitespace_def is_digit_def hash_def space_def or_null_def unknown_support_def

text \<open>The examples of the specification.\<close>

lemma parseSupport_examples:
  "parseSupport (Some (js ''y'')) = \<lparr>code = js ''y'', noteRef = None\<rparr>"
  "parseSupport (Some (js ''n #1'')) = \<lparr>code = js ''n'', noteRef = Some (js ''1'')\<rparr>"
  "parseSupport (Some (js ''weird'')) = \<lparr>code = js ''u'', noteRef = None\<rparr>"
  "parseSupport (Some []) = \<lparr>code = js ''u'', noteRef = None\<rparr>"
  "parseSupport None = \<lparr>code = js ''u'', noteRef = None\<rparr>"
  by (simp_all add: parse_eval)

text \<open>What is returned for a string of the pattern's language.\<close>

lemma parseSupport_values:
  assumes "is_code_char c" and "list_all is_whitespace ws"
  shows "parseSupport (Some (c # ws)) = \<lparr>code = [c], noteRef = None\<rparr>"
    and "ds \<noteq> [] \<Longrightarrow> list_all is_digit ds \<Longrightarrow>
         parseSupport (Some (c # ws @ hash # ds)) = \<lparr>code = [c], noteRef = Some ds\<rparr>"
proof -
  from assms(2) have dw: "dropWhile is_whitespace ws = []"
    by (simp add: list_all_iff)
  from assms(2) have dw2: "\<And>t. dropWhile is_whitespace (ws @ hash # t) = hash # t"
    by (simp add: list_all_iff dropWhile_append3 hash_not_whitespace)
  show "parseSupport (Some (c # ws)) = \<lparr>code = [c], noteRef = None\<rparr>"
    by (simp add: parseSupport_def match_support_def assms(1) dw or_null_def)
  show "parseSupport (Some (c # ws @ hash # ds)) = \<lparr>code = [c], noteRef = Some ds\<rparr>"
    if "ds \<noteq> []" "list_all is_digit ds"
    using that by (simp add: parseSupport_def match_support_def assms(1) dw2 or_null_def)
qed

lemma parseSupport_code: "code (parseSupport v) \<in> set support_codes"
proof -
  have u: "js ''u'' \<in> set support_codes" by (simp add: support_codes_def)
  show ?thesis
  proof (cases v)
    case None
    then show ?thesis using u by (simp add: parseSupport_def unknown_support_def)
  next
    case (Some s)
    then show ?thesis using u match_support_result[of s]
      by (auto simp: parseSupport_def unknown_support_def split: option.splits)
  qed
qed

text \<open>
  C1, as the code has it. For every string or absent value \<open>v\<close>, \<open>parseSupport v\<close> has
  a code among y, a, n, u, d and a note reference that is null or a non-empty string of
  digits. A code other than u, or a note reference, is returned only for a string of the
  pattern's language \<open>^[yandu]\s*(#\d+)?$\<close> (any run of white space after the code, with or
  without a \<open>#\<close> reference after it); every other string and the absent value give
  code u with no note reference.
\<close>

theorem parseSupport_source_grammar:
  "code (parseSupport v) \<in> set support_codes
   \<and> (noteRef (parseSupport v) = None
        \<or> (\<exists>ds. noteRef (parseSupport v) = Some ds \<and> ds \<noteq> [] \<and> list_all is_digit ds))
   \<and> ((code (parseSupport v) \<noteq> js ''u'' \<or> noteRef (parseSupport v) \<noteq> None)
        \<longrightarrow> (\<exists>s. v = Some s \<and> source_grammar s))
   \<and> ((\<forall>s. v = Some s \<longrightarrow> \<not> source_grammar s)
        \<longrightarrow> parseSupport v = \<lparr>code = js ''u'', noteRef = None\<rparr>)"
proof (cases v)
  case None
  then show ?thesis
    by (simp add: parseSupport_def unknown_support_def support_codes_def)
next
  case v: (Some s)
  show ?thesis
  proof (cases "match_support s")
    case None
    with v show ?thesis
      by (simp add: parseSupport_def unknown_support_def support_codes_def source_grammar_match)
  next
    case (Some cg)
    obtain c g where cg: "cg = (c, g)" by (cases cg)
    from Some cg have m: "match_support s = Some (c, g)" by simp
    then have sne: "s \<noteq> []" by (auto simp: match_support_def)
    from m have g: "source_grammar s" by (simp add: source_grammar_match)
    from match_support_result[OF m] v m sne g show ?thesis
      by (auto simp: parseSupport_def or_null_def)
  qed
qed

theorem parseSupport_source_grammar_witness:
  "code (parseSupport (Some (js ''n #1''))) = js ''n''
   \<and> noteRef (parseSupport (Some (js ''n #1''))) = Some (js ''1'')
   \<and> source_grammar (js ''n #1'')"
  using parseSupport_source_grammar[of "Some (js ''n #1'')"]
  by (simp add: parse_eval)

text \<open>
  C1, as the specification states it, fails: the string \<open>y\<close> followed by one space is
  not in \<open>^(y|a|n|d|u)( *#<digits>)?$\<close> (white space is allowed there only before a
  \<open>#\<close> reference), and \<open>parseSupport\<close> returns code y for it.
\<close>

theorem parseSupport_spec_grammar_counterexample:
  "\<not> spec_grammar (js ''y '')
   \<and> parseSupport (Some (js ''y '')) = \<lparr>code = js ''y'', noteRef = None\<rparr>"
  by (simp add: parse_eval spec_grammar_def)

section \<open>Properties of the icon lookup\<close>

text \<open>
  C10. For every string or absent support value, the code that \<open>parseSupport\<close> returns is
  an own key of \<open>SUPPORT_ICONS\<close>: the read \<open>SUPPORT_ICONS[code]\<close> finds an entry and the
  fallback operand \<open>SUPPORT_ICONS.u\<close> of renderSupportCell is never evaluated.
\<close>

theorem icon_lookup_never_falls_back:
  "\<not> icon_fallback_taken (code (parseSupport v))
   \<and> (\<exists>i. js_get SUPPORT_ICONS (code (parseSupport v)) = Own i)"
  using parseSupport_code[of v]
  by (auto simp: support_codes_def icon_fallback_taken_def js_get_def SUPPORT_ICONS_def js_def)

theorem icon_lookup_never_falls_back_witness:
  "\<not> icon_fallback_taken (code (parseSupport (Some (js ''d #12''))))
   \<and> js_get SUPPORT_ICONS (code (parseSupport (Some (js ''d #12'')))) =
       Own \<lparr>icon = js ''&#9881;'', icon_class = js ''support-a'',
            icon_title = js ''Disabled by default''\<rparr>"
  using icon_lookup_never_falls_back[of "Some (js ''d #12'')"]
  by (simp add: parse_eval js_get_def SUPPORT_ICONS_def)

section \<open>Properties of the markup\<close>

text \<open>
  What the tokenizer reads from the markup of an icon. A value that is an attribute text
  comes back whole from between its double quotes; the \<open>class\<close> attribute, which is
  written first, comes back whole whatever the texts after it are.
\<close>

lemma normalize_newlines_id: "0x0D \<notin> set s \<Longrightarrow> normalize_newlines s = s"
  by (induction s rule: normalize_newlines.induct) auto

lemma character_reference_escapes:
  "character_reference (js ''amp;'' @ rest) = Some (0x26, rest)"
  "character_reference (js ''lt;'' @ rest) = Some (0x3C, rest)"
  "character_reference (js ''gt;'' @ rest) = Some (0x3E, rest)"
  "character_reference (js ''nbsp;'' @ rest) = Some (0xA0, rest)"
  by (simp_all add: character_reference_def named_references_def js_def)

lemma tokenize_double_quoted:
  assumes "0x22 \<notin> set v" and "0x00 \<notin> set v"
  shows "tokenize (AttributeValueDoubleQuoted n acc) t as (escapeHtml v @ 0x22 # rest)
       = tokenize AfterAttributeValueQuoted t (as @ [(n, acc @ v)]) rest"
  using assms
proof (induction v arbitrary: acc)
  case Nil
  then show ?case by (simp add: escapeHtml_def)
next
  case (Cons c v)
  from Cons.prems have c: "c \<noteq> 0x22" "c \<noteq> 0" and v: "0x22 \<notin> set v" "0x00 \<notin> set v" by auto
  have e: "escapeHtml (c # v) = escape_unit c @ escapeHtml v" by (simp add: escapeHtml_def)
  consider "c = 0x26" | "c = 0x3C" | "c = 0x3E" | "c = 0xA0"
    | "c \<noteq> 0x26" "c \<noteq> 0x3C" "c \<noteq> 0x3E" "c \<noteq> 0xA0" by blast
  then have "tokenize (AttributeValueDoubleQuoted n acc) t as (escape_unit c @ escapeHtml v @ 0x22 # rest)
      = tokenize (AttributeValueDoubleQuoted n (acc @ [c])) t as (escapeHtml v @ 0x22 # rest)"
  proof cases
    case 1
    have "escape_unit c @ escapeHtml v @ 0x22 # rest = 0x26 # (js ''amp;'' @ escapeHtml v @ 0x22 # rest)"
      using 1 by (simp add: escape_unit_def js_def)
    then show ?thesis using 1 by (simp add: character_reference_escapes)
  next
    case 2
    have "escape_unit c @ escapeHtml v @ 0x22 # rest = 0x26 # (js ''lt;'' @ escapeHtml v @ 0x22 # rest)"
      using 2 by (simp add: escape_unit_def js_def)
    then show ?thesis using 2 by (simp add: character_reference_escapes)
  next
    case 3
    have "escape_unit c @ escapeHtml v @ 0x22 # rest = 0x26 # (js ''gt;'' @ escapeHtml v @ 0x22 # rest)"
      using 3 by (simp add: escape_unit_def js_def)
    then show ?thesis using 3 by (simp add: character_reference_escapes)
  next
    case 4
    have "escape_unit c @ escapeHtml v @ 0x22 # rest = 0x26 # (js ''nbsp;'' @ escapeHtml v @ 0x22 # rest)"
      using 4 by (simp add: escape_unit_def js_def)
    then show ?thesis using 4 by (simp add: character_reference_escapes)
  next
    case 5
    then show ?thesis using c by (simp add: escape_unit_def value_unit_def)
  qed
  also have "\<dots> = tokenize AfterAttributeValueQuoted t (as @ [(n, (acc @ [c]) @ v)]) rest"
    using v by (rule Cons.IH)
  finally show ?case by (simp add: e)
qed

lemma escapeHtml_no_return: "0x0D \<notin> set s \<Longrightarrow> 0x0D \<notin> set (escapeHtml s)"
  by (induction s) (auto simp: escapeHtml_def escape_unit_def js_def)



lemma tokenize_attribute_starts:
  \<open>tokenize (TagName []) [] [] (js ''span class="'' @ rest)
     = tokenize (AttributeValueDoubleQuoted (js ''class'') []) (js ''span'') [] rest\<close>
  \<open>tokenize AfterAttributeValueQuoted t as (js '' data-note="'' @ rest)
     = tokenize (AttributeValueDoubleQuoted (js ''data-note'') []) t as rest\<close>
  \<open>tokenize AfterAttributeValueQuoted t as (js '' data-combo-key="'' @ rest)
     = tokenize (AttributeValueDoubleQuoted (js ''data-combo-key'') []) t as rest\<close>
  \<open>tokenize AfterAttributeValueQuoted t as (js '' data-feature-id="'' @ rest)
     = tokenize (AttributeValueDoubleQuoted (js ''data-feature-id'') []) t as rest\<close>
  \<open>tokenize AfterAttributeValueQuoted t as (js '' onclick="'' @ rest)
     = tokenize (AttributeValueDoubleQuoted (js ''onclick'') []) t as rest\<close>
  \<open>tokenize AfterAttributeValueQuoted t as (js '' title="'' @ rest)
     = tokenize (AttributeValueDoubleQuoted (js ''title'') []) t as rest\<close>
  \<open>tokenize AfterAttributeValueQuoted t as (js ''>'' @ rest)
     = Some \<lparr>tag_name = t, attributes = as, content = rest\<rparr>\<close>
  by (simp_all add: js_def is_space_def name_unit_def)

lemma escapeHtml_plain: "plain_text s \<Longrightarrow> escapeHtml s = s"
  by (induction s) (auto simp: plain_text_def escapeHtml_def escape_unit_def)

lemma parse_start_tag_span:
  assumes "0x0D \<notin> set rest"
  shows \<open>parse_start_tag (js ''<span class="'' @ rest)
       = tokenize (AttributeValueDoubleQuoted (js ''class'') []) (js ''span'') [] rest\<close>
proof -
  have m: \<open>js ''<span class="'' @ rest = 0x3C # 0x73 # (js ''pan class="'' @ rest)\<close>
    by (simp add: js_def)
  have \<open>0x0D \<notin> set (js ''<span class="'' @ rest)\<close>
    using assms by (simp add: js_def)
  then have \<open>normalize_newlines (js ''<span class="'' @ rest) = js ''<span class="'' @ rest\<close>
    by (rule normalize_newlines_id)
  then have \<open>parse_start_tag (js ''<span class="'' @ rest)
      = tokenize (TagName []) [] [] (js ''span class="'' @ rest)\<close>
    unfolding parse_start_tag_def by (simp add: m) (simp add: js_def)
  then show ?thesis by (simp only: tokenize_attribute_starts)
qed

lemma tokenize_value:
  assumes "attribute_text v"
  shows \<open>tokenize (AttributeValueDoubleQuoted n []) t as (escapeHtml v @ js ''"'' @ rest)
       = tokenize AfterAttributeValueQuoted t (as @ [(n, v)]) rest\<close>
  using assms tokenize_double_quoted[of v n "[]" t as rest]
  by (simp add: attribute_text_def js_def)




lemma icon_for_codes:
  assumes "c \<in> set support_codes"
  shows "icon_for c \<in> snd ` set SUPPORT_ICONS"
  using assms by (auto simp: support_codes_def icon_for_def js_get_def SUPPORT_ICONS_def js_def)

lemma class_list_icons:
  assumes "i \<in> snd ` set SUPPORT_ICONS"
  shows "class_list (Some (js ''support-icon '' @ icon_class i @ js '' has-source''))
           = [js ''support-icon'', icon_class i, js ''has-source'']"
    and "class_list (Some (js ''support-icon '' @ icon_class i))
           = [js ''support-icon'', icon_class i]"
    and "plain_text (js ''support-icon '' @ icon_class i @ js '' has-source'')"
    and "attribute_text (js ''support-icon '' @ icon_class i @ js '' has-source'')"
    and "plain_text (js ''support-icon '' @ icon_class i)"
    and "attribute_text (js ''support-icon '' @ icon_class i)"
    and "0x0D \<notin> set (icon i)"
  using assms
  by (auto simp: SUPPORT_ICONS_def class_list_def js_def is_space_def plain_text_def attribute_text_def)

lemma attribute_names_differ:
  "js ''class'' \<noteq> js ''data-note''" "js ''class'' \<noteq> js ''data-combo-key''"
  "js ''class'' \<noteq> js ''data-feature-id''" "js ''class'' \<noteq> js ''onclick''"
  "js ''data-note'' \<noteq> js ''data-combo-key''" "js ''data-note'' \<noteq> js ''data-feature-id''"
  "js ''data-note'' \<noteq> js ''onclick''" "js ''data-combo-key'' \<noteq> js ''data-feature-id''"
  "js ''data-combo-key'' \<noteq> js ''onclick''" "js ''data-feature-id'' \<noteq> js ''onclick''"
  "js ''showSourceModal(this)'' \<noteq> js ''toggleNote(this)''"
  by (simp_all add: js_def)




lemma tokenize_attributes_grow:
  "tokenize s t as cs = Some tag \<Longrightarrow> \<exists>more. attributes tag = as @ more"
  by (induction s t as cs rule: tokenize.induct)
     (auto split: if_splits option.splits)

lemma normalize_newlines_prefix:
  assumes "0x0D \<notin> set p"
  shows "normalize_newlines (p @ r) = p @ normalize_newlines r"
  using assms
proof (induction p)
  case Nil
  then show ?case by simp
next
  case (Cons c p)
  then have c: "c \<noteq> 0x0D" and IH: "normalize_newlines (p @ r) = p @ normalize_newlines r" by auto
  show ?case
  proof (cases "p @ r")
    case Nil
    then show ?thesis using c by simp
  next
    case (Cons d ds)
    then have "normalize_newlines (c # p @ r) = c # normalize_newlines (p @ r)"
      using c by simp
    then show ?thesis using IH by simp
  qed
qed

lemma cline_cell_rendered:
  "cell_element (renderSupportCell (Some (js ''y #1'')) (feature_notes tools_feature)
       (source_entry tools_feature cline_key) cline_key (feature_id tools_feature))
     = Some cline_cell"
  by code_simp

lemma example_spans_rendered:
  "map icon_element
     [native_cell True (Some (js ''Copilot Chat'')), native_cell True (Some (js ''Cursor Agent'')),
      plugin_cell False]
   = map Some example_spans"
  by code_simp



lemma span_class_kept:
  assumes C: "plain_text C" "attribute_text C"
    and tag: \<open>parse_start_tag (js ''<span class="'' @ C @ js ''"'' @ rest) = Some tag\<close>
  shows "tag_attribute tag (js ''class'') = Some C"
proof -
  let ?r = "normalize_newlines rest"
  have \<open>0x0D \<notin> set (js ''<span class="'' @ C @ js ''"'')\<close>
    using C(2) by (simp add: attribute_text_def js_def)
  then have \<open>normalize_newlines ((js ''<span class="'' @ C @ js ''"'') @ rest)
      = (js ''<span class="'' @ C @ js ''"'') @ ?r\<close>
    by (rule normalize_newlines_prefix)
  then have n: \<open>normalize_newlines (js ''<span class="'' @ C @ js ''"'' @ rest)
      = 0x3C # 0x73 # (js ''pan class="'' @ C @ js ''"'' @ ?r)\<close>
    by (simp add: js_def)
  have \<open>parse_start_tag (js ''<span class="'' @ C @ js ''"'' @ rest)
      = tokenize (TagName []) [] [] (js ''span class="'' @ escapeHtml C @ js ''"'' @ ?r)\<close>
    unfolding parse_start_tag_def n using escapeHtml_plain[OF C(1)] by (simp add: js_def)
  also have "\<dots> = tokenize AfterAttributeValueQuoted (js ''span'') ([] @ [(js ''class'', C)]) ?r"
    by (simp only: tokenize_attribute_starts tokenize_value[OF C(2)])
  finally have "tokenize AfterAttributeValueQuoted (js ''span'') [(js ''class'', C)] ?r = Some tag"
    using tag by simp
  from tokenize_attributes_grow[OF this] show ?thesis
    by (auto simp: tag_attribute_def)
qed

lemma rendered_icons_not_shown:
  shows "cell_element (renderSupportCell support ns src k fid) = Some el \<Longrightarrow> \<not> selected el"
    and "icon_element (native_cell hasNative nativeName) = Some sp \<Longrightarrow> \<not> selected sp"
    and "icon_element (plugin_cell isCompatible) = Some sp \<Longrightarrow> \<not> selected sp"
proof -
  let ?i = "icon_for (code (parseSupport support))"
  let ?C = "js ''support-icon '' @ icon_class ?i @ (if source_truthy src then js '' has-source'' else [])"
  note i = icon_for_codes[OF parseSupport_code[of support]]
  have C: "plain_text ?C" "attribute_text ?C"
    using class_list_icons(3-6)[OF i] by simp_all
  have cl: "class_list (Some ?C) = [js ''support-icon'', icon_class ?i]
                          @ (if source_truthy src then [js ''has-source''] else [])"
    using class_list_icons(1,2)[OF i] by simp
  have ns: "js ''show-note'' \<notin> set (class_list (Some ?C))"
    using i unfolding cl by (auto simp: SUPPORT_ICONS_def js_def)
  obtain rest where shape: \<open>renderSupportCell support ns src k fid
      = js ''<span class="'' @ ?C @ js ''"'' @ rest\<close>
    by (simp add: renderSupportCell_def Let_def js_def)
  show "\<not> selected el" if "cell_element (renderSupportCell support ns src k fid) = Some el"
  proof -
    from that obtain tag where t: "parse_start_tag (renderSupportCell support ns src k fid) = Some tag"
      and c: "classes el = class_list (tag_attribute tag (js ''class''))"
      by (auto simp: cell_element_def split: option.splits)
    from span_class_kept[OF C t[unfolded shape]] c ns show ?thesis
      by (simp add: selected_def has_class_def)
  qed
  let ?D = "js ''support-icon '' @ (if hasNative then js ''support-y'' else js ''support-n'')"
  have D: "plain_text ?D" "attribute_text ?D" "js ''show-note'' \<notin> set (class_list (Some ?D))"
    by (simp_all add: plain_text_def attribute_text_def class_list_def js_def is_space_def)
  obtain rest' where shape': \<open>native_cell hasNative nativeName
      = js ''<span class="'' @ ?D @ js ''"'' @ rest'\<close>
    by (simp add: native_cell_def Let_def js_def)
  show "\<not> selected sp" if "icon_element (native_cell hasNative nativeName) = Some sp"
  proof -
    from that obtain tag where t: "parse_start_tag (native_cell hasNative nativeName) = Some tag"
      and c: "classes sp = class_list (tag_attribute tag (js ''class''))"
      by (auto simp: icon_element_def split: option.splits)
    from span_class_kept[OF D(1,2) t[unfolded shape']] c D(3) show ?thesis
      by (simp add: selected_def has_class_def)
  qed
  let ?E = "js ''support-icon '' @ (if isCompatible then js ''support-y'' else js ''support-n'')"
  have E: "plain_text ?E" "attribute_text ?E" "js ''show-note'' \<notin> set (class_list (Some ?E))"
    by (simp_all add: plain_text_def attribute_text_def class_list_def js_def is_space_def)
  obtain rest'' where shape'': \<open>plugin_cell isCompatible
      = js ''<span class="'' @ ?E @ js ''"'' @ rest''\<close>
    by (simp add: plugin_cell_def js_def)
  show "\<not> selected sp" if "icon_element (plugin_cell isCompatible) = Some sp"
  proof -
    from that obtain tag where t: "parse_start_tag (plugin_cell isCompatible) = Some tag"
      and c: "classes sp = class_list (tag_attribute tag (js ''class''))"
      by (auto simp: icon_element_def split: option.splits)
    from span_class_kept[OF E(1,2) t[unfolded shape'']] c E(3) show ?thesis
      by (simp add: selected_def has_class_def)
  qed
qed

lemma icon_element_native_cell:
  assumes "attribute_text n" and "n \<noteq> []"
  shows "icon_element (native_cell hasNative (Some n))
       = Some \<lparr>classes = [js ''support-icon'', if hasNative then js ''support-y'' else js ''support-n''],
                onclick = ToggleNote, data_note = Some n\<rparr>"
proof -
  let ?D = "js ''support-icon '' @ (if hasNative then js ''support-y'' else js ''support-n'')"
  let ?ic = "if hasNative then js ''&#10003;'' else js ''&#10005;''"
  let ?t = "js ''span''"
  let ?R2 = \<open>js '' onclick="'' @ escapeHtml (js ''toggleNote(this)'') @ js ''"'' @ js ''>'' @ ?ic @ js ''</span>''\<close>
  let ?R1 = \<open>escapeHtml ?D @ js ''"'' @ js '' data-note="'' @ escapeHtml n @ js ''"'' @ ?R2\<close>
  have D: "plain_text ?D" "attribute_text ?D"
    "class_list (Some ?D) = [js ''support-icon'', if hasNative then js ''support-y'' else js ''support-n'']"
    by (simp_all add: plain_text_def attribute_text_def class_list_def js_def is_space_def)
  have h: "attribute_text (js ''toggleNote(this)'')" "plain_text (js ''toggleNote(this)'')"
    by (simp_all add: attribute_text_def plain_text_def js_def)
  have ne: "nonempty (Some n) = Some n"
    using assms(2) by (cases n) (simp_all add: nonempty_def)
  have shape: \<open>native_cell hasNative (Some n) = js ''<span class="'' @ ?R1\<close>
    using escapeHtml_plain[OF D(1)] escapeHtml_plain[OF h(2)]
    by (simp add: native_cell_def Let_def ne js_def)
  have nr: "0x0D \<notin> set ?R1"
    using assms(1) D(2) h by (auto simp: attribute_text_def escapeHtml_no_return js_def)
  have "parse_start_tag (js ''<span class=\"'' @ ?R1)
      = tokenize (AttributeValueDoubleQuoted (js ''class'') []) ?t [] ?R1"
    using nr by (rule parse_start_tag_span)
  also have "\<dots> = Some \<lparr>tag_name = ?t,
        attributes = [(js ''class'', ?D), (js ''data-note'', n), (js ''onclick'', js ''toggleNote(this)'')],
        content = ?ic @ js ''</span>''\<rparr>"
    by (simp only: tokenize_attribute_starts tokenize_value[OF D(2)] tokenize_value[OF assms(1)]
        tokenize_value[OF h(1)]) simp
  finally show ?thesis
    unfolding icon_element_def shape using attribute_names_differ
    by (simp add: tag_attribute_def handler_of_def D(3))
qed




lemma quote_ends_attribute:
  \<open>cell_element (renderSupportCell None None Absent (js ''a" data-feature-id="x'') (js ''tools''))
     = Some \<lparr>classes = [js ''support-icon'', js ''support-u''], onclick = ShowSourceModal,
              data_note = None, data_combo_key = js ''a'', data_feature_id = js ''x''\<rparr>\<close>
  by code_simp

section \<open>Properties of the loader and of the combination builder\<close>

lemma distinct_all_tasks: "distinct all_tasks"
  by (simp add: all_tasks_def IDE_FILES_def AI_CLIENT_FILES_def FEATURE_FILES_def js_def distinct_map inj_on_def)

lemma two_ides_state:
  "loadAllData two_ides_network reversed_schedule initial_state =
     \<lparr>ides = [(js ''cursor'', native_only), (js ''vscode'', native_only)],
      aiClients = [(js ''native'', native_client)], features = [],
      changelog = \<lparr>entries = Some []\<rparr>\<rparr>"
  by (simp add: loadAllData_def reversed_schedule_def all_tasks_def IDE_FILES_def AI_CLIENT_FILES_def
      FEATURE_FILES_def two_ides_network_def initial_state_def loadJSON_def try_load_def if_data_def
      response_ok_def js_def)

lemma valid_reversed_schedule: "valid_schedule reversed_schedule"
  by (simp add: valid_schedule_def reversed_schedule_def distinct_all_tasks)

lemma clients_loop_eq:
  "clients_loop cl iid i aids combos =
     combos @ map (combination_of cl iid i) (filter (\<lambda>aid. truthy (js_get cl aid)) aids)"
  by (induction aids arbitrary: combos) (simp_all add: Let_def combination_of_def)

lemma ides_loop_eq:
  "ides_loop cl es combos =
     combos @ concat (map (\<lambda>(iid, i). map (combination_of cl iid i) (resolving cl i)) es)"
  by (induction es arbitrary: combos) (auto simp: clients_loop_eq resolving_def)

lemma getClientCombinations_eq:
  "getClientCombinations st =
     concat (map (\<lambda>(iid, i). map (combination_of (aiClients st) iid i) (resolving (aiClients st) i))
       (ides st))"
  by (simp add: getClientCombinations_def ides_loop_eq)

lemma js_set_new: "k \<notin> fst ` set obj \<Longrightarrow> js_set obj k v = obj @ [(k, v)]"
  by (induction obj k v rule: js_set.induct) auto

lemma map_of_js_set: "map_of (js_set obj k v) = (map_of obj)(k \<mapsto> v)"
  by (induction obj k v rule: js_set.induct) (auto simp: fun_eq_iff)

lemma keys_js_set: "fst ` set (js_set obj k v) = insert k (fst ` set obj)"
  by (induction obj k v rule: js_set.induct) auto

lemma distinct_js_set: "distinct (map fst obj) \<Longrightarrow> distinct (map fst (js_set obj k v))"
  by (induction obj k v rule: js_set.induct) (auto simp: keys_js_set)

lemma ides_fold_settle:
  "distinct (ide_ids schedule) \<Longrightarrow> set (ide_ids schedule) \<inter> fst ` set (ides st) = {}
   \<Longrightarrow> ides (fold (settle net) schedule st) = ides st @ loaded_ides net schedule"
proof (induction schedule arbitrary: st)
  case Nil
  then show ?case by (simp add: loaded_ides_def)
next
  case (Cons t schedule)
  show ?case
  proof (cases t)
    case (LoadIde i)
    with Cons.prems have i: "i \<notin> fst ` set (ides st)" "i \<notin> set (ide_ids schedule)"
      and d: "distinct (ide_ids schedule)" and dj: "set (ide_ids schedule) \<inter> fst ` set (ides st) = {}"
      by (auto simp: ide_ids_def)
    show ?thesis
    proof (cases "if_data (loadJSON (ide_file net i))")
      case None
      with LoadIde Cons.IH[OF d dj] show ?thesis by (simp add: loaded_ides_def)
    next
      case (Some doc)
      let ?st = "st\<lparr>ides := js_set (ides st) i doc\<rparr>"
      have "set (ide_ids schedule) \<inter> fst ` set (ides ?st) = {}"
        using i dj by (auto simp: keys_js_set)
      from Cons.IH[OF d this] LoadIde Some i show ?thesis
        by (simp add: loaded_ides_def js_set_new)
    qed
  next
    case (LoadAiClient i)
    with Cons.prems have "distinct (ide_ids schedule)"
      "set (ide_ids schedule) \<inter> fst ` set (ides st) = {}" by (auto simp: ide_ids_def)
    then have "\<And>s. ides s = ides st \<Longrightarrow> ides (fold (settle net) schedule s) = ides s @ loaded_ides net schedule"
      using Cons.IH by simp
    with LoadAiClient show ?thesis
      by (simp add: loaded_ides_def split: option.splits)
  next
    case (LoadFeature i)
    with Cons.prems have "distinct (ide_ids schedule)"
      "set (ide_ids schedule) \<inter> fst ` set (ides st) = {}" by (auto simp: ide_ids_def)
    then have "\<And>s. ides s = ides st \<Longrightarrow> ides (fold (settle net) schedule s) = ides s @ loaded_ides net schedule"
      using Cons.IH by simp
    with LoadFeature show ?thesis
      by (simp add: loaded_ides_def split: option.splits)
  next
    case LoadChangelog
    with Cons.prems have "distinct (ide_ids schedule)"
      "set (ide_ids schedule) \<inter> fst ` set (ides st) = {}" by (auto simp: ide_ids_def)
    then have "\<And>s. ides s = ides st \<Longrightarrow> ides (fold (settle net) schedule s) = ides s @ loaded_ides net schedule"
      using Cons.IH by simp
    with LoadChangelog show ?thesis
      by (simp add: loaded_ides_def split: option.splits)
  qed
qed

lemma distinct_ide_ids: "distinct schedule \<Longrightarrow> distinct (ide_ids schedule)"
proof (induction schedule)
  case Nil
  then show ?case by (simp add: ide_ids_def)
next
  case (Cons t schedule)
  have "\<And>i. i \<in> set (ide_ids schedule) \<Longrightarrow> LoadIde i \<in> set schedule"
    by (auto simp: ide_ids_def split: task.splits)
  with Cons show ?case by (cases t) (auto simp: ide_ids_def)
qed

lemma ides_loadAllData:
  "distinct schedule \<Longrightarrow> ides (loadAllData net schedule initial_state) = loaded_ides net schedule"
  using ides_fold_settle[of schedule initial_state net]
  by (simp add: loadAllData_def distinct_ide_ids) (simp add: initial_state_def)

text \<open>The client map after loading, as a map: independent of the schedule's order.\<close>

lemma aiClients_fold_settle:
  "map_of (aiClients (fold (settle net) schedule st)) aid =
     (case (if LoadAiClient aid \<in> set schedule then if_data (loadJSON (ai_client_file net aid)) else None) of
        Some d \<Rightarrow> Some d | None \<Rightarrow> map_of (aiClients st) aid)"
proof (induction schedule rule: rev_induct)
  case Nil
  then show ?case by simp
next
  case (snoc t schedule)
  then show ?case
    by (cases t) (auto simp: map_of_js_set split: option.splits if_splits)
qed

lemma aiClients_loadAllData:
  "valid_schedule schedule \<Longrightarrow>
   map_of (aiClients (loadAllData net schedule initial_state)) aid =
     (if aid \<in> set AI_CLIENT_FILES then if_data (loadJSON (ai_client_file net aid)) else None)"
  by (auto simp: loadAllData_def aiClients_fold_settle valid_schedule_def all_tasks_def
      initial_state_def split: option.splits)

lemma truthy_js_get:
  "truthy (js_get obj k) \<longleftrightarrow> map_of obj k \<noteq> None \<or> k \<in> set Object_prototype_keys"
  by (auto simp: js_get_def split: option.splits)

lemma key_combination_of [simp]:
  "key (combination_of cl iid i aid) = iid @ js ''+'' @ aid"
  "ideId (combination_of cl iid i aid) = iid"
  "aiClientId (combination_of cl iid i aid) = aid"
  "ide (combination_of cl iid i aid) = i"
  "aiClient (combination_of cl iid i aid) = js_get cl aid"
  by (simp_all add: combination_of_def)

lemma keys_getClientCombinations:
  "map key (getClientCombinations st) =
     concat (map (\<lambda>(iid, i). map (\<lambda>aid. iid @ js ''+'' @ aid) (resolving (aiClients st) i)) (ides st))"
  by (simp add: getClientCombinations_eq map_concat comp_def case_prod_unfold)

lemma emitted_iff:
  "(\<exists>c\<in>set (getClientCombinations st). ideId c = iid \<and> aiClientId c = aid \<and> key c = iid @ js ''+'' @ aid)
   \<longleftrightarrow> (\<exists>i. (iid, i) \<in> set (ides st) \<and> aid \<in> set (or_empty (compatible_ai_clients i))
            \<and> truthy (js_get (aiClients st) aid))"
  by (auto simp: getClientCombinations_eq resolving_def) force

text \<open>
  C2, as the code has it. After a load (any schedule), the combinations come interface by
  interface in the enumeration order of the \<open>ides\<close> object, which is the order in which the
  interfaces' files arrived and were stored (not the order of \<open>IDE_FILES\<close>), and within
  an interface in the order of its compatibility list. For every interface and every
  identifier of its list, the combination with key \<open><ideId>+<aiClientId>\<close> is emitted
  exactly when \<open>aiClients[aiClientId]\<close> is truthy; for an identifier that is not the name
  of a member of \<open>Object.prototype\<close> that is exactly when the client's file was loaded.
\<close>

theorem getClientCombinations_follows_load_order:
  assumes "valid_schedule schedule" and "st = loadAllData net schedule initial_state"
  shows "map key (getClientCombinations st) =
           concat (map (\<lambda>(iid, i). map (\<lambda>aid. iid @ js ''+'' @ aid) (resolving (aiClients st) i))
             (loaded_ides net schedule))
       \<and> ((\<exists>c\<in>set (getClientCombinations st).
              ideId c = iid \<and> aiClientId c = aid \<and> key c = iid @ js ''+'' @ aid)
            \<longleftrightarrow> (\<exists>i. (iid, i) \<in> set (loaded_ides net schedule)
                    \<and> aid \<in> set (or_empty (compatible_ai_clients i))
                    \<and> truthy (js_get (aiClients st) aid)))
       \<and> (aid \<notin> set Object_prototype_keys \<longrightarrow>
            truthy (js_get (aiClients st) aid)
              = (aid \<in> set AI_CLIENT_FILES \<and> if_data (loadJSON (ai_client_file net aid)) \<noteq> None))"
proof -
  from assms have i: "ides st = loaded_ides net schedule"
    by (simp add: ides_loadAllData valid_schedule_def)
  from assms have a: "map_of (aiClients st) aid =
     (if aid \<in> set AI_CLIENT_FILES then if_data (loadJSON (ai_client_file net aid)) else None)"
    by (simp add: aiClients_loadAllData)
  show ?thesis
    using keys_getClientCombinations[of st] emitted_iff[of st iid aid] i a
    by (simp add: truthy_js_get)
qed

lemma js_plus: "js ''cursor+native'' = js ''cursor'' @ js ''+'' @ js ''native''"
  "js ''vscode+native'' = js ''vscode'' @ js ''+'' @ js ''native''"
  by (simp_all add: js_def)

lemma native_truthy: "truthy (js_get [(js ''native'', native_client)] (js ''native''))"
  by (simp add: js_get_def)

theorem getClientCombinations_follows_load_order_witness:
  "valid_schedule reversed_schedule
   \<and> map key (getClientCombinations (loadAllData two_ides_network reversed_schedule initial_state))
       = [js ''cursor+native'', js ''vscode+native'']"
proof -
  have l: "loaded_ides two_ides_network reversed_schedule
      = [(js ''cursor'', native_only), (js ''vscode'', native_only)]"
    using ides_loadAllData[of reversed_schedule two_ides_network] valid_reversed_schedule
    by (simp add: two_ides_state valid_schedule_def)
  from getClientCombinations_follows_load_order[OF valid_reversed_schedule refl, of two_ides_network]
  have "map key (getClientCombinations (loadAllData two_ides_network reversed_schedule initial_state)) =
           concat (map (\<lambda>(iid, i). map (\<lambda>aid. iid @ js ''+'' @ aid)
              (resolving (aiClients (loadAllData two_ides_network reversed_schedule initial_state)) i))
             (loaded_ides two_ides_network reversed_schedule))"
    by blast
  then show ?thesis
    by (simp add: l two_ides_state valid_reversed_schedule resolving_def native_only_def or_empty_def
        native_truthy js_plus)
qed

text \<open>
  C2, as the specification states it, fails: when the file of \<open>cursor\<close> arrives before
  the file of \<open>vscode\<close>, the combination of \<open>cursor\<close> is emitted first, while the order
  of \<open>IDE_FILES\<close> puts \<open>vscode\<close> first.
\<close>

theorem getClientCombinations_IDE_FILES_order_counterexample:
  "valid_schedule reversed_schedule
   \<and> map key (getClientCombinations (loadAllData two_ides_network reversed_schedule initial_state))
       = [js ''cursor+native'', js ''vscode+native'']
   \<and> keys_in_IDE_FILES_order (loadAllData two_ides_network reversed_schedule initial_state)
       = [js ''vscode+native'', js ''cursor+native'']"
  by (simp add: two_ides_state valid_reversed_schedule keys_getClientCombinations resolving_def
      native_only_def or_empty_def native_truthy js_plus keys_in_IDE_FILES_order_def IDE_FILES_def)
     (simp add: js_def)

section \<open>Determinism of the combination builder\<close>

text \<open>
  C6. A call of \<open>getClientCombinations\<close> returns a list that depends on the \<open>ides\<close> and
  \<open>aiClients\<close> maps only: two calls in states with the same two maps return the same
  records in the same positions, whatever else differs; a call leaves every module
  variable as it was, so a second call right after the first returns the same again.
\<close>

theorem getClientCombinations_deterministic:
  assumes "ides st' = ides st" and "aiClients st' = aiClients st"
  shows "fst (call_getClientCombinations st') = fst (call_getClientCombinations st)
       \<and> snd (call_getClientCombinations st) = st
       \<and> call_getClientCombinations (snd (call_getClientCombinations st)) = call_getClientCombinations st"
  using assms by (simp add: call_getClientCombinations_def getClientCombinations_def)

theorem getClientCombinations_deterministic_witness:
  "ides (loadAllData two_ides_network reversed_schedule initial_state\<lparr>changelog := \<lparr>entries = None\<rparr>\<rparr>)
     = ides (loadAllData two_ides_network reversed_schedule initial_state)
   \<and> aiClients (loadAllData two_ides_network reversed_schedule initial_state\<lparr>changelog := \<lparr>entries = None\<rparr>\<rparr>)
     = aiClients (loadAllData two_ides_network reversed_schedule initial_state)
   \<and> fst (call_getClientCombinations
        (loadAllData two_ides_network reversed_schedule initial_state\<lparr>changelog := \<lparr>entries = None\<rparr>\<rparr>))
     = fst (call_getClientCombinations (loadAllData two_ides_network reversed_schedule initial_state))
   \<and> map key (fst (call_getClientCombinations
        (loadAllData two_ides_network reversed_schedule initial_state)))
     = [js ''cursor+native'', js ''vscode+native'']"
  using getClientCombinations_deterministic
    [of "loadAllData two_ides_network reversed_schedule initial_state\<lparr>changelog := \<lparr>entries = None\<rparr>\<rparr>"
        "loadAllData two_ides_network reversed_schedule initial_state"]
  by (simp add: call_getClientCombinations_def two_ides_state keys_getClientCombinations
      resolving_def native_only_def or_empty_def native_truthy js_plus)

section \<open>Properties of the grouping\<close>

lemma js_get_Own_iff: "js_get obj k = Own v \<longleftrightarrow> map_of obj k = Some v"
  by (auto simp: js_get_def split: option.splits)

lemma js_get_new:
  "k \<notin> fst ` set obj \<Longrightarrow> k \<notin> set Object_prototype_keys \<Longrightarrow> js_get obj k = Absent"
proof -
  assume "k \<notin> fst ` set obj" and p: "k \<notin> set Object_prototype_keys"
  then have "map_of obj k = None" by (simp add: map_of_eq_None_iff)
  with p show ?thesis by (simp add: js_get_def)
qed

lemma map_of_snoc_new: "k \<notin> fst ` set obj \<Longrightarrow> map_of (obj @ [(k, v)]) k = Some v"
  by (induction obj) auto

lemma js_set_last: "k \<notin> fst ` set obj \<Longrightarrow> js_set (obj @ [(k, v)]) k w = obj @ [(k, w)]"
  by (induction obj) auto

text \<open>A block of combinations of one interface, added to the group that is already there.\<close>

lemma group_loop_block:
  assumes "k \<notin> fst ` set g" and "\<forall>c\<in>set b. ideId c = k"
  shows "group_loop (b @ rest) (g @ [(k, \<lparr>group_ide = i, group_combos = cs\<rparr>)])
       = group_loop rest (g @ [(k, \<lparr>group_ide = i, group_combos = cs @ b\<rparr>)])"
  using assms(2)
proof (induction b arbitrary: cs)
  case Nil
  then show ?case by simp
next
  case (Cons c b)
  have own: "js_get (g @ [(k, \<lparr>group_ide = i, group_combos = cs\<rparr>)]) k
      = Own \<lparr>group_ide = i, group_combos = cs\<rparr>"
    by (simp only: js_get_Own_iff map_of_snoc_new[OF assms(1)])
  from Cons.prems have k: "ideId c = k" and b: "\<forall>c\<in>set b. ideId c = k" by auto
  show ?case
    using Cons.IH[OF b, of "cs @ [c]"] assms(1)
    by (simp add: k own js_set_last)
qed

lemma group_loop_new_block:
  assumes "k \<notin> fst ` set g" and "k \<notin> set Object_prototype_keys"
    and "\<forall>c\<in>set b. ideId c = k" and "ide c = i" and "ideId c = k"
  shows "group_loop ((c # b) @ rest) g
       = group_loop rest (g @ [(k, \<lparr>group_ide = i, group_combos = c # b\<rparr>)])"
proof -
  have ab: "js_get g k = Absent" using assms(1,2) by (rule js_get_new)
  have own: "js_get (g @ [(k, \<lparr>group_ide = i, group_combos = []\<rparr>)]) k
      = Own \<lparr>group_ide = i, group_combos = []\<rparr>"
    by (simp only: js_get_Own_iff map_of_snoc_new[OF assms(1)])
  have "group_loop ((c # b) @ rest) g
      = group_loop (b @ rest) (g @ [(k, \<lparr>group_ide = i, group_combos = [c]\<rparr>)])"
    using assms by (simp add: ab own js_set_new js_set_last)
  also have "\<dots> = group_loop rest (g @ [(k, \<lparr>group_ide = i, group_combos = [c] @ b\<rparr>)])"
    using assms(1,3) by (rule group_loop_block)
  finally show ?thesis by simp
qed

lemma keys_groups_of:
  "map fst (groups_of cl es) = map fst (filter (\<lambda>e. resolving cl (snd e) \<noteq> []) es)"
  by (induction es) (auto simp: groups_of_def)

lemma group_loop_blocks:
  assumes "distinct (map fst es)" and "fst ` set es \<inter> fst ` set g = {}"
    and "fst ` set es \<inter> set Object_prototype_keys = {}"
  shows "group_loop (blocks cl es) g = Inr (g @ groups_of cl es)"
  using assms
proof (induction es arbitrary: g)
  case Nil
  then show ?case by (simp add: blocks_def groups_of_def)
next
  case (Cons e es)
  obtain k i where e: "e = (k, i)" by (cases e)
  from Cons.prems e have k: "k \<notin> fst ` set g" "k \<notin> set Object_prototype_keys" "k \<notin> fst ` set es"
    and d: "distinct (map fst es)" and dj: "fst ` set es \<inter> fst ` set g = {}"
    and pr: "fst ` set es \<inter> set Object_prototype_keys = {}"
    by auto
  show ?case
  proof (cases "resolving cl i")
    case Nil
    with Cons.IH[OF d dj pr] e show ?thesis
      by (simp add: blocks_def groups_of_def)
  next
    case (Cons a as)
    let ?b = "map (combination_of cl k i) (resolving cl i)"
    let ?g = "g @ [(k, \<lparr>group_ide = i, group_combos = ?b\<rparr>)]"
    have b: "?b = combination_of cl k i a # map (combination_of cl k i) as"
      using Cons by simp
    have "group_loop (?b @ blocks cl es) g = group_loop (blocks cl es) ?g"
      unfolding b
      using group_loop_new_block[of k g "map (combination_of cl k i) as" "combination_of cl k i a" i
          "blocks cl es"] k(1,2)
      by (simp add: combination_of_def)
    moreover have "fst ` set es \<inter> fst ` set ?g = {}" using dj k(3) by auto
    from Cons.IH[OF d this pr] have "group_loop (blocks cl es) ?g = Inr (?g @ groups_of cl es)" .
    ultimately show ?thesis using e Cons
      by (simp add: blocks_def groups_of_def)
  qed
qed

lemma group_loop_getClientCombinations:
  assumes "distinct (map fst (ides st))"
    and "fst ` set (ides st) \<inter> set Object_prototype_keys = {}"
  shows "group_loop (getClientCombinations st) [] = Inr (interface_groups st)"
  using group_loop_blocks[of "ides st" "[]" "aiClients st"] assms
  by (simp add: getClientCombinations_eq blocks_def groups_of_def interface_groups_def)

section \<open>Properties of the sort\<close>

lemma mset_insert_sorted: "mset (insert_sorted cmp x ys) = add_mset x (mset ys)"
  by (induction ys) auto

lemma mset_array_sort: "mset (array_sort cmp xs) = mset xs"
  by (induction xs) (auto simp: array_sort_def mset_insert_sorted)






section \<open>Properties of loaded states and of the feature matrix\<close>

lemma features_fold_settle:
  "map_of (features (fold (settle net) schedule st)) k =
     (case (if LoadFeature k \<in> set schedule then if_data (loadJSON (feature_file net k)) else None) of
        Some d \<Rightarrow> Some d | None \<Rightarrow> map_of (features st) k)"
proof (induction schedule rule: rev_induct)
  case Nil
  then show ?case by simp
next
  case (snoc t schedule)
  then show ?case
    by (cases t) (auto simp: map_of_js_set split: option.splits if_splits)
qed

lemma features_loadAllData:
  "valid_schedule schedule \<Longrightarrow>
   map_of (features (loadAllData net schedule initial_state)) k =
     (if k \<in> set FEATURE_FILES then if_data (loadJSON (feature_file net k)) else None)"
  by (auto simp: loadAllData_def features_fold_settle valid_schedule_def all_tasks_def
      initial_state_def split: option.splits)

lemma keys_loaded_ides:
  "map fst (loaded_ides net schedule) =
     filter (\<lambda>i. if_data (loadJSON (ide_file net i)) \<noteq> None) (ide_ids schedule)"
proof (induction schedule)
  case Nil
  then show ?case by (simp add: loaded_ides_def ide_ids_def)
next
  case (Cons t schedule)
  then show ?case
    by (cases t) (auto simp: loaded_ides_def ide_ids_def split: option.splits)
qed

lemma set_ide_ids: "set (ide_ids schedule) = {i. LoadIde i \<in> set schedule}"
  by (induction schedule) (auto simp: ide_ids_def split: task.splits)

lemma IDE_FILES_not_inherited: "set IDE_FILES \<inter> set Object_prototype_keys = {}"
  by (simp add: IDE_FILES_def Object_prototype_keys_def js_def)


lemma loaded_ides_wf:
  assumes "valid_schedule schedule"
  shows "distinct (map fst (loaded_ides net schedule))"
    and "fst ` set (loaded_ides net schedule) \<inter> set Object_prototype_keys = {}"
proof -
  from assms have d: "distinct schedule" and s: "set schedule = set all_tasks"
    by (simp_all add: valid_schedule_def)
  show "distinct (map fst (loaded_ides net schedule))"
    by (simp add: keys_loaded_ides distinct_ide_ids[OF d])
  have "set (map fst (loaded_ides net schedule)) \<subseteq> set (ide_ids schedule)"
    by (simp add: keys_loaded_ides)
  also have "\<dots> \<subseteq> set IDE_FILES"
    by (auto simp: set_ide_ids s all_tasks_def)
  finally show "fst ` set (loaded_ides net schedule) \<inter> set Object_prototype_keys = {}"
    using IDE_FILES_not_inherited by auto
qed


lemma renderFeaturesMatrix_eq:
  assumes "distinct (map fst (ides st))"
    and "fst ` set (ides st) \<inter> set Object_prototype_keys = {}"
  shows "renderFeaturesMatrix lc st =
     Inr (if getClientCombinations st = [] \<or> features st = [] then NoData
          else MatrixTable (feature_list st)
                 (concat (map (group_rows (feature_list st)) (sorted_groups lc (interface_groups st)))))"
  by (simp add: renderFeaturesMatrix_def Let_def group_loop_getClientCombinations[OF assms])

lemma code_unit_compare_total: "code_unit_compare x y \<le> 0 \<or> code_unit_compare y x \<le> 0"
  by (induction x y rule: code_unit_compare.induct) auto

lemma code_unit_compare_trans:
  "code_unit_compare x y \<le> 0 \<Longrightarrow> code_unit_compare y z \<le> 0 \<Longrightarrow> code_unit_compare x z \<le> 0"
proof (induction x y arbitrary: z rule: code_unit_compare.induct)
  case 1
  then show ?case by simp
next
  case (2 y ys)
  then show ?case by (cases z) auto
next
  case (3 x xs)
  then show ?case by simp
next
  case (4 x xs y ys)
  then show ?case by (cases z) (auto split: if_splits)
qed

lemma consistent_code_unit_compare: "consistent_comparison code_unit_compare"
  unfolding consistent_comparison_def
  using code_unit_compare_total code_unit_compare_trans by blast






lemma loaded_state_wf:
  assumes "valid_schedule schedule" and "st = loadAllData net schedule initial_state"
  shows "distinct (map fst (ides st))" and "fst ` set (ides st) \<inter> set Object_prototype_keys = {}"
  using assms loaded_ides_wf[OF assms(1), of net]
  by (simp_all add: ides_loadAllData valid_schedule_def)

























lemma example_combos:
  "map key (getClientCombinations (loadAllData example_network reversed_schedule initial_state))
   = map js [''zed+native'', ''jetbrains+github-copilot'', ''jetbrains+cline'', ''jetbrains+continue'',
        ''cursor+native'', ''cursor+cline'', ''vscode+github-copilot'', ''vscode+cline'']"
  by code_simp

lemma example_groups:
  "map (\<lambda>e. (fst e, name (group_ide (snd e)), length (group_combos (snd e))))
     (sorted_groups code_unit_compare
        (interface_groups (loadAllData example_network reversed_schedule initial_state)))
   = [(js ''jetbrains'', js ''JetBrains'', 3), (js ''cursor'', js ''Cursor'', 2),
      (js ''vscode'', js ''VS Code'', 2), (js ''zed'', js ''Zed'', 1)]"
  by code_simp
















section \<open>Properties of \<open>toggleGroup\<close>\<close>

lemma group_id_neq [simp]:
  "js ''group-'' @ k \<noteq> js ''expanded''"
  "js ''group-'' @ k \<noteq> js ''ide-group-header''"
  "js ''group-'' @ k \<noteq> js ''ide-group-row''"
  "js ''expanded'' \<noteq> js ''group-'' @ k"
  "js ''ide-group-header'' \<noteq> js ''group-'' @ k"
  "js ''ide-group-row'' \<noteq> js ''group-'' @ k"
  "js ''ide-group-header'' \<noteq> js ''expanded''"
  "js ''expanded'' \<noteq> js ''ide-group-header''"
  by (simp_all add: js_def)

lemma expansion_rendered: "rendered_row r \<Longrightarrow> expansion (\<lambda>g. False) r = r"
  by (auto simp: rendered_row_def expansion_def)

lemma data_group_expansion [simp]: "data_group (expansion f r) = data_group r"
  by (auto simp: expansion_def split: option.splits list.splits)

lemma find_map_expansion:
  "find (\<lambda>r. data_group r = Some g) (map (expansion f) rows)
     = map_option (expansion f) (find (\<lambda>r. data_group r = Some g) rows)"
  by (induction rows) auto

text \<open>One row under a toggle of group g.\<close>

lemma toggle_other_row:
  assumes "rendered_row r" and "data_group r \<noteq> Some (js ''group-'' @ k)"
  shows "(if has_class (js ''group-'' @ k) (expansion f r)
          then (expansion f r)\<lparr>display := (if \<not> f (js ''group-'' @ k) then [] else js ''none'')\<rparr>
          else expansion f r)
       = expansion (f(js ''group-'' @ k := \<not> f (js ''group-'' @ k))) r"
  using assms
  by (auto simp: rendered_row_def expansion_def has_class_def)

lemma toggle_header_row:
  assumes "rendered_row r" and "data_group r = Some (js ''group-'' @ k)"
  shows "fst (classList_toggle (js ''expanded'')
          (if has_class (js ''group-'' @ k) (expansion f r)
           then (expansion f r)\<lparr>display := (if \<not> f (js ''group-'' @ k) then [] else js ''none'')\<rparr>
           else expansion f r))
       = expansion (f(js ''group-'' @ k := \<not> f (js ''group-'' @ k))) r"
    and "snd (classList_toggle (js ''expanded'') (expansion f r)) = (\<not> f (js ''group-'' @ k))"
  using assms
  by (auto simp: rendered_row_def expansion_def has_class_def classList_toggle_def
      classList_add_def classList_remove_def)

lemma update_first_toggle:
  assumes "\<forall>r\<in>set rows. rendered_row r" and "distinct (headers rows)"
    and "js ''group-'' @ k \<in> set (headers rows)"
  shows "update_first (\<lambda>r. data_group r = Some (js ''group-'' @ k))
           (\<lambda>r. fst (classList_toggle (js ''expanded'') r))
           (map (\<lambda>r. if has_class (js ''group-'' @ k) r
                      then r\<lparr>display := (if \<not> f (js ''group-'' @ k) then [] else js ''none'')\<rparr>
                      else r) (map (expansion f) rows))
       = map (expansion (f(js ''group-'' @ k := \<not> f (js ''group-'' @ k)))) rows"
  using assms
proof (induction rows)
  case Nil
  then show ?case by (simp add: headers_def)
next
  case (Cons r rows)
  let ?g = "js ''group-'' @ k"
  from Cons.prems have rr: "rendered_row r" and rs: "\<forall>r\<in>set rows. rendered_row r" by auto
  show ?case
  proof (cases "data_group r = Some ?g")
    case True
    with Cons.prems(2) have "?g \<notin> set (headers rows)" by (simp add: headers_def)
    then have no: "\<forall>x\<in>set rows. data_group x \<noteq> Some ?g"
      by (auto simp: headers_def split: option.splits)
    have rest: "map (\<lambda>r. if has_class ?g r
                      then r\<lparr>display := (if \<not> f ?g then [] else js ''none'')\<rparr>
                      else r) (map (expansion f) rows)
        = map (expansion (f(?g := \<not> f ?g))) rows"
      using rs no by (auto simp: toggle_other_row simp del: fun_upd_apply)
    have dg: "data_group (if has_class ?g (expansion f r)
           then (expansion f r)\<lparr>display := (if \<not> f ?g then [] else js ''none'')\<rparr>
           else expansion f r) = Some ?g"
      using True by simp
    show ?thesis
      using toggle_header_row(1)[OF rr True, of f] rest dg
      by (simp del: fun_upd_apply)
  next
    case False
    with Cons.prems have d: "distinct (headers rows)" and m: "?g \<in> set (headers rows)"
      by (auto simp: headers_def split: option.splits)
    have dg: "data_group (if has_class ?g (expansion f r)
           then (expansion f r)\<lparr>display := (if \<not> f ?g then [] else js ''none'')\<rparr>
           else expansion f r) \<noteq> Some ?g"
      using False by simp
    show ?thesis
      using Cons.IH[OF rs d m] toggle_other_row[OF rr False, of f] dg
      by (simp del: fun_upd_apply)
  qed
qed

lemma toggleGroup_expansion:
  assumes "\<forall>r\<in>set rows. rendered_row r" and "distinct (headers rows)"
    and "js ''group-'' @ k \<in> set (headers rows)"
  shows "toggleGroup (js ''group-'' @ k) (map (expansion f) rows)
       = Inr (map (expansion (f(js ''group-'' @ k := \<not> f (js ''group-'' @ k)))) rows)"
proof -
  let ?g = "js ''group-'' @ k"
  from assms(3) obtain h where h: "find (\<lambda>r. data_group r = Some ?g) rows = Some h"
    by (cases "find (\<lambda>r. data_group r = Some ?g) rows")
       (auto simp: headers_def find_None_iff split: option.splits)
  then have hr: "rendered_row h" and hg: "data_group h = Some ?g"
    using assms(1) by (auto simp: find_Some_iff)
  show ?thesis
    using update_first_toggle[OF assms, of f] toggle_header_row(2)[OF hr hg, of f]
    by (simp add: toggleGroup_def find_map_expansion h Let_def del: fun_upd_apply)
qed

lemma click_headers_expansion:
  assumes "\<forall>r\<in>set rows. rendered_row r" and "distinct (headers rows)"
    and "set clicks \<subseteq> set (headers rows)"
  shows "click_headers clicks (map (expansion f) rows)
       = Inr (map (expansion (\<lambda>g. f g \<noteq> odd (count_list clicks g))) rows)"
  using assms(3)
proof (induction clicks arbitrary: f)
  case Nil
  then show ?case by simp
next
  case (Cons g clicks)
  from Cons.prems have g: "g \<in> set (headers rows)" and c: "set clicks \<subseteq> set (headers rows)"
    by auto
  from g assms(1) obtain k where k: "g = js ''group-'' @ k"
    by (auto simp: headers_def rendered_row_def split: option.splits)
  have "(\<lambda>x. (f(g := \<not> f g)) x \<noteq> odd (count_list clicks x))
      = (\<lambda>x. f x \<noteq> odd (count_list (g # clicks) x))"
    by (auto simp: fun_eq_iff)
  with Cons.IH[OF c, of "f(g := \<not> f g)"] toggleGroup_expansion[OF assms(1,2), of k f] g k
  show ?case by (simp del: fun_upd_apply)
qed

lemma click_headers_rendered:
  assumes "\<forall>r\<in>set rows. rendered_row r" and "distinct (headers rows)"
    and "set clicks \<subseteq> set (headers rows)"
  shows "click_headers clicks rows = Inr (map (expansion (\<lambda>g. odd (count_list clicks g))) rows)"
proof -
  have "map (expansion (\<lambda>g. False)) rows = rows"
    using assms(1) by (simp add: expansion_rendered map_idI)
  with click_headers_expansion[OF assms, of "\<lambda>g. False"] show ?thesis by simp
qed

text \<open>What the expansion says about a tagged row and about a header row.\<close>

lemma visible_expansion:
  assumes "rendered_row r" and "has_class (js ''group-'' @ k) r"
  shows "visible (expansion f r) = f (js ''group-'' @ k)"
proof -
  have n: "js ''none'' \<noteq> []" by (simp add: js_def)
  show ?thesis
    using assms n
    by (auto simp: rendered_row_def expansion_def has_class_def visible_def split: if_splits)
qed

lemma expanded_expansion:
  assumes "rendered_row r" and "data_group r = Some g"
  shows "has_class (js ''expanded'') (expansion f r) = f g"
  using assms
  by (auto simp: rendered_row_def expansion_def has_class_def)

lemma rendered_group_rows: "r \<in> set (group_rows fl e) \<Longrightarrow> rendered_row r"
  by (auto simp: group_rows_def Let_def rendered_row_def split: list.splits)

lemma headers_group_rows:
  "headers (group_rows fl e)
     = (if length (group_combos (snd e)) = 1 then [] else [js ''group-'' @ fst e])"
  by (auto simp: group_rows_def Let_def headers_def comp_def split: list.splits)

lemma headers_append: "headers (xs @ ys) = headers xs @ headers ys"
  by (simp add: headers_def)

lemma headers_concat_group_rows:
  "headers (concat (map (group_rows fl) gs))
     = map (\<lambda>e. js ''group-'' @ fst e) (filter (\<lambda>e. length (group_combos (snd e)) \<noteq> 1) gs)"
  by (induction gs) (simp_all add: headers_def headers_append headers_group_rows[unfolded headers_def])

lemma distinct_map_prefix: "distinct xs \<Longrightarrow> distinct (map ((@) p) xs)"
  by (induction xs) auto

lemma distinct_headers:
  assumes "distinct (map fst gs)"
  shows "distinct (headers (concat (map (group_rows fl) gs)))"
proof -
  have "distinct (map fst (filter (\<lambda>e. length (group_combos (snd e)) \<noteq> 1) gs))"
    using assms by (rule distinct_map_filter)
  then have "distinct (map ((@) (js ''group-''))
      (map fst (filter (\<lambda>e. length (group_combos (snd e)) \<noteq> 1) gs)))"
    by (rule distinct_map_prefix)
  then show ?thesis by (simp add: headers_concat_group_rows comp_def)
qed

lemma distinct_interface_groups:
  assumes "distinct (map fst (ides st))"
  shows "distinct (map fst (interface_groups st))"
proof -
  have "interface_groups st = groups_of (aiClients st) (ides st)"
    by (simp add: interface_groups_def groups_of_def)
  then show ?thesis using assms by (simp add: keys_groups_of distinct_map_filter)
qed

lemma distinct_sorted_groups:
  assumes "distinct (map fst gs)"
  shows "distinct (map fst (sorted_groups lc gs))"
proof -
  have "mset (map fst (sorted_groups lc gs)) = mset (map fst gs)"
    by (simp add: sorted_groups_def mset_array_sort)
  then show ?thesis using assms by (metis mset_eq_imp_distinct_iff)
qed

lemma rendered_matrix_rows:
  assumes "valid_schedule schedule" and "st = loadAllData net schedule initial_state"
    and "renderFeaturesMatrix lc st = Inr (MatrixTable fl rows)"
  shows "\<forall>r\<in>set rows. rendered_row r" and "distinct (headers rows)"
proof -
  note wf = loaded_state_wf[OF assms(1,2)]
  from assms(3) renderFeaturesMatrix_eq[OF wf, of lc]
  have rows: "rows = concat (map (group_rows fl) (sorted_groups lc (interface_groups st)))"
    by (auto split: if_splits)
  show "\<forall>r\<in>set rows. rendered_row r"
    unfolding rows using rendered_group_rows by auto
  show "distinct (headers rows)"
    unfolding rows
    by (intro distinct_headers distinct_sorted_groups distinct_interface_groups wf(1))
qed

text \<open>
  C7. On the table rendered for a loaded state, after any sequence of clicks on header
  rows (of this and of other groups), for every collapsible group: its header has the
  class \<open>expanded\<close> exactly when the number of clicks on it is odd, and every row tagged
  with the group's identifier is visible exactly when that number is odd; after an even
  number (zero included) none is. So the flag of the header and the display of the rows
  agree, and both depend on the number of clicks on that header only. No click throws.
\<close>

theorem group_visibility_by_click_parity:
  assumes "valid_schedule schedule" and "st = loadAllData net schedule initial_state"
    and "renderFeaturesMatrix lc st = Inr (MatrixTable fl rows)"
    and "set clicks \<subseteq> set (headers rows)"
  shows "\<exists>rows'. click_headers clicks rows = Inr rows' \<and> length rows' = length rows
       \<and> (\<forall>i<length rows. \<forall>g. data_group (rows ! i) = Some g \<longrightarrow>
             has_class (js ''expanded'') (rows' ! i) = odd (count_list clicks g))
       \<and> (\<forall>i<length rows. \<forall>k. has_class (js ''group-'' @ k) (rows ! i) \<longrightarrow>
             visible (rows' ! i) = odd (count_list clicks (js ''group-'' @ k)))"
proof -
  note r = rendered_matrix_rows[OF assms(1,2,3)]
  let ?f = "\<lambda>g. odd (count_list clicks g)"
  have "click_headers clicks rows = Inr (map (expansion ?f) rows)"
    using r assms(4) by (rule click_headers_rendered)
  moreover have "has_class (js ''expanded'') (map (expansion ?f) rows ! i) = odd (count_list clicks g)"
    if "i < length rows" "data_group (rows ! i) = Some g" for i g
    using that r(1) by (simp add: expanded_expansion)
  moreover have "visible (map (expansion ?f) rows ! i) = odd (count_list clicks (js ''group-'' @ k))"
    if "i < length rows" "has_class (js ''group-'' @ k) (rows ! i)" for i k
    using that r(1) by (simp add: visible_expansion)
  ultimately show ?thesis by simp
qed

lemma example_headers:
  "map (\<lambda>e. js ''group-'' @ fst e) (filter (\<lambda>e. length (group_combos (snd e)) \<noteq> 1)
      (sorted_groups code_unit_compare
        (interface_groups (loadAllData example_network reversed_schedule initial_state))))
   = [js ''group-jetbrains'', js ''group-cursor'', js ''group-vscode'']"
  by code_simp

lemma example_render:
  "renderFeaturesMatrix code_unit_compare (loadAllData example_network reversed_schedule initial_state)
     = Inr (MatrixTable (feature_list (loadAllData example_network reversed_schedule initial_state))
              (matrix_rows code_unit_compare (loadAllData example_network reversed_schedule initial_state)))"
proof -
  let ?S = "loadAllData example_network reversed_schedule initial_state"
  have c: "getClientCombinations ?S \<noteq> []"
    using example_combos by auto
  have "js ''tools'' \<in> set FEATURE_FILES" by (simp add: FEATURE_FILES_def)
  then have "map_of (features ?S) (js ''tools'')
      = if_data (loadJSON (feature_file example_network (js ''tools'')))"
    using features_loadAllData[OF valid_reversed_schedule, of example_network "js ''tools''"] by simp
  moreover have "if_data (loadJSON (feature_file example_network (js ''tools''))) \<noteq> None"
    by code_simp
  ultimately have "map_of (features ?S) (js ''tools'') \<noteq> None" by simp
  then have f: "features ?S \<noteq> []" by auto
  show ?thesis
    using renderFeaturesMatrix_eq[OF loaded_state_wf[OF valid_reversed_schedule refl], of code_unit_compare example_network] c f
    by (simp add: matrix_rows_def)
qed

lemma example_matrix_headers:
  "headers (matrix_rows code_unit_compare (loadAllData example_network reversed_schedule initial_state))
   = [js ''group-jetbrains'', js ''group-cursor'', js ''group-vscode'']"
  by (simp only: matrix_rows_def headers_concat_group_rows example_headers)

theorem group_visibility_by_click_parity_witness:
  "valid_schedule reversed_schedule
   \<and> renderFeaturesMatrix code_unit_compare (loadAllData example_network reversed_schedule initial_state)
     = Inr (MatrixTable (feature_list (loadAllData example_network reversed_schedule initial_state))
              (matrix_rows code_unit_compare (loadAllData example_network reversed_schedule initial_state)))
   \<and> headers (matrix_rows code_unit_compare (loadAllData example_network reversed_schedule initial_state))
     = [js ''group-jetbrains'', js ''group-cursor'', js ''group-vscode'']
   \<and> (\<exists>rows'. click_headers [js ''group-cursor'', js ''group-vscode'', js ''group-cursor'', js ''group-cursor'']
           (matrix_rows code_unit_compare (loadAllData example_network reversed_schedule initial_state))
         = Inr rows'
       \<and> (\<forall>i<length (matrix_rows code_unit_compare (loadAllData example_network reversed_schedule initial_state)).
            has_class (js ''group-cursor'')
              (matrix_rows code_unit_compare (loadAllData example_network reversed_schedule initial_state) ! i)
            \<longrightarrow> visible (rows' ! i))
       \<and> (\<forall>i<length (matrix_rows code_unit_compare (loadAllData example_network reversed_schedule initial_state)).
            has_class (js ''group-jetbrains'')
              (matrix_rows code_unit_compare (loadAllData example_network reversed_schedule initial_state) ! i)
            \<longrightarrow> \<not> visible (rows' ! i)))"
proof -
  let ?R = "matrix_rows code_unit_compare (loadAllData example_network reversed_schedule initial_state)"
  let ?clicks = "[js ''group-cursor'', js ''group-vscode'', js ''group-cursor'', js ''group-cursor'']"
  have sub: "set ?clicks \<subseteq> set (headers ?R)"
    by (simp add: example_matrix_headers)
  have c: "odd (count_list ?clicks (js ''group-'' @ js ''cursor''))"
    "\<not> odd (count_list ?clicks (js ''group-'' @ js ''jetbrains''))"
    by (simp_all add: js_def)
  have j: "js ''group-cursor'' = js ''group-'' @ js ''cursor''"
    "js ''group-jetbrains'' = js ''group-'' @ js ''jetbrains''"
    by (simp_all add: js_def)
  from group_visibility_by_click_parity[OF valid_reversed_schedule refl example_render sub]
  obtain rows' where r: "click_headers ?clicks ?R = Inr rows'"
    and v: "\<forall>i<length ?R. \<forall>k. has_class (js ''group-'' @ k) (?R ! i) \<longrightarrow>
             visible (rows' ! i) = odd (count_list ?clicks (js ''group-'' @ k))"
    by blast
  from v c have "\<forall>i<length ?R. has_class (js ''group-cursor'') (?R ! i) \<longrightarrow> visible (rows' ! i)"
    unfolding j by blast
  moreover from v c have "\<forall>i<length ?R. has_class (js ''group-jetbrains'') (?R ! i) \<longrightarrow> \<not> visible (rows' ! i)"
    unfolding j by blast
  ultimately show ?thesis
    using r valid_reversed_schedule example_render example_matrix_headers by blast
qed

section \<open>Reads that cannot reach \<open>Object.prototype\<close>\<close>

lemma prototype_keys_no_plus: "k \<in> set Object_prototype_keys \<Longrightarrow> 0x2B \<notin> set k"
  by (auto simp: Object_prototype_keys_def js_def)

lemma plus_key_not_inherited: "js_get m (iid @ js ''+'' @ aid) \<noteq> Inherited"
proof -
  have "0x2B \<in> set (iid @ js ''+'' @ aid)" by (simp add: js_def)
  then have "iid @ js ''+'' @ aid \<notin> set Object_prototype_keys"
    using prototype_keys_no_plus by blast
  then show ?thesis by (simp add: js_get_def split: option.splits)
qed

lemma prototype_keys_no_digit: "k \<in> set Object_prototype_keys \<Longrightarrow> \<not> list_all is_digit k \<or> k = []"
  by (auto simp: Object_prototype_keys_def js_def is_digit_def)

lemma noteRef_digits:
  "noteRef (parseSupport v) = Some r \<Longrightarrow> r \<noteq> [] \<and> list_all is_digit r"
  by (auto simp: parseSupport_def unknown_support_def or_null_def match_support_def
      split: option.splits if_splits list.splits)

lemma digits_not_inherited:
  assumes "noteRef (parseSupport v) = Some r"
  shows "js_get m r \<noteq> Inherited"
proof -
  from assms have "r \<noteq> []" "list_all is_digit r" by (simp_all add: noteRef_digits)
  then have "r \<notin> set Object_prototype_keys" using prototype_keys_no_digit by blast
  then show ?thesis by (simp add: js_get_def split: option.splits)
qed

section \<open>Properties of the note tooltips\<close>

lemma selected_remove [simp]: "\<not> selected (classList_remove (js ''show-note'') e)"
  by (simp add: selected_def classList_remove_def has_class_def)

lemma length_toggleNote [simp]: "length (toggleNote i spans) = length spans"
  by (simp add: toggleNote_def Let_def)

lemma length_document_click [simp]: "length (document_click spans) = length spans"
  by (simp add: document_click_def)

lemma toggleNote_others:
  assumes "j < length spans" and "j \<noteq> i"
  shows "\<not> selected (toggleNote i spans ! j)"
  using assms
  by (auto simp: toggleNote_def Let_def nth_enumerate_eq)

lemma toggleNote_self:
  assumes "i < length spans" and "has_class (js ''support-icon'') (spans ! i)"
  shows "selected (toggleNote i spans ! i) = (\<not> selected (spans ! i))"
  using assms
  by (auto simp: toggleNote_def Let_def nth_enumerate_eq selected_def classList_toggle_def
      classList_add_def classList_remove_def has_class_def)

lemma document_click_none: "el \<in> set (document_click spans) \<Longrightarrow> \<not> selected el"
  by (auto simp: document_click_def)

lemma at_most_one:
  assumes "\<forall>j<length xs. j \<noteq> i \<longrightarrow> \<not> P (xs ! j)"
  shows "length (filter P xs) \<le> 1"
  using assms
proof (induction xs arbitrary: i)
  case Nil
  then show ?case by simp
next
  case (Cons x xs)
  show ?case
  proof (cases i)
    case 0
    with Cons.prems have "\<forall>j<length xs. \<not> P (xs ! j)" by auto
    then have "filter P xs = []" by (auto simp: filter_empty_conv in_set_conv_nth)
    then show ?thesis by simp
  next
    case (Suc n)
    with Cons.prems have x: "\<not> P x" and "\<forall>j<length xs. j \<noteq> n \<longrightarrow> \<not> P (xs ! j)"
      by auto
    with Cons.IH[of n] show ?thesis by simp
  qed
qed

lemma shown_count_toggleNote: "shown_count (toggleNote i spans) \<le> 1"
  unfolding shown_count_def
  by (rule at_most_one[of _ i]) (simp add: toggleNote_others)

lemma shown_count_document_click: "shown_count (document_click spans) = 0"
  using document_click_none[of _ spans] by (auto simp: shown_count_def filter_empty_conv)

lemma shown_count_dispatch:
  assumes "shown_count spans \<le> 1"
  shows "shown_count (dispatch c spans) \<le> 1"
proof (cases c)
  case ClickElsewhere
  then show ?thesis by (simp add: shown_count_document_click)
next
  case (ClickIcon i)
  show ?thesis
  proof (cases "i < length spans")
    case False
    with ClickIcon assms show ?thesis by simp
  next
    case True
    show ?thesis
    proof (cases "onclick (spans ! i)")
      case NoHandler
      with ClickIcon True show ?thesis by (simp add: shown_count_document_click)
    next
      case ToggleNote
      with ClickIcon True shown_count_toggleNote[of i spans] show ?thesis by simp
    next
      case ShowSourceModal
      with ClickIcon True assms show ?thesis by simp
    qed
  qed
qed

lemma shown_count_fold:
  assumes "shown_count spans \<le> 1"
  shows "shown_count (fold dispatch clicks spans) \<le> 1"
  using assms
proof (induction clicks arbitrary: spans)
  case Nil
  then show ?case by simp
next
  case (Cons c clicks)
  from Cons.prems have "shown_count (dispatch c spans) \<le> 1" by (rule shown_count_dispatch)
  then have "shown_count (fold dispatch clicks (dispatch c spans)) \<le> 1" by (rule Cons.IH)
  then show ?case by simp
qed

text \<open>
  C8. From a page on which no tooltip is shown (as rendered), after any sequence of clicks
  at most one icon matches \<open>.support-icon.show-note\<close>. A click on an icon with the
  \<open>toggleNote\<close> handler runs \<open>toggleNote\<close> only (the click is stopped before the
  document listener): every other icon is then not shown, and the icon itself has changed
  its state. A click that reaches the document leaves no icon shown.
\<close>

theorem at_most_one_note_shown:
  assumes "\<forall>el\<in>set spans. \<not> selected el"
  shows "shown_count (fold dispatch clicks spans) \<le> 1
       \<and> (\<forall>s i. i < length s \<and> onclick (s ! i) = ToggleNote \<longrightarrow>
             dispatch (ClickIcon i) s = toggleNote i s
             \<and> (\<forall>j<length s. j \<noteq> i \<longrightarrow> \<not> selected (dispatch (ClickIcon i) s ! j))
             \<and> (has_class (js ''support-icon'') (s ! i) \<longrightarrow>
                  selected (dispatch (ClickIcon i) s ! i) = (\<not> selected (s ! i))))
       \<and> (\<forall>s. \<forall>el\<in>set (dispatch ClickElsewhere s). \<not> selected el)"
proof -
  from assms have "filter selected spans = []" by (simp add: filter_empty_conv)
  then have "shown_count spans \<le> 1" by (simp add: shown_count_def)
  then have "shown_count (fold dispatch clicks spans) \<le> 1" by (rule shown_count_fold)
  then show ?thesis
    by (auto simp: Let_def toggleNote_others toggleNote_self dest: document_click_none)
qed

theorem at_most_one_note_shown_witness:
  "map selected example_spans = [False, False, False]
   \<and> map selected (fold dispatch [ClickIcon 0, ClickIcon 1] example_spans) = [False, True, False]
   \<and> shown_count (fold dispatch [ClickIcon 0, ClickIcon 1] example_spans) \<le> 1
   \<and> map selected (fold dispatch [ClickIcon 0, ClickIcon 1, ClickIcon 2] example_spans)
       = [False, False, False]"
proof -
  have a: "map selected example_spans = [False, False, False]" by code_simp
  have "list_all (\<lambda>el. \<not> selected el) example_spans" by code_simp
  then have "\<forall>el\<in>set example_spans. \<not> selected el"
    by (simp add: list_all_iff)
  from at_most_one_note_shown[OF this, of "[ClickIcon 0, ClickIcon 1]"]
  have "shown_count (fold dispatch [ClickIcon 0, ClickIcon 1] example_spans) \<le> 1" by blast
  moreover have "map selected (fold dispatch [ClickIcon 0, ClickIcon 1] example_spans) = [False, True, False]"
    by code_simp
  moreover have "map selected (fold dispatch [ClickIcon 0, ClickIcon 1, ClickIcon 2] example_spans)
       = [False, False, False]"
    by code_simp
  ultimately show ?thesis using a by blast
qed

section \<open>Properties of \<open>showSourceModal\<close>\<close>

lemma js_get_Absent_iff:
  "js_get obj k = Absent \<longleftrightarrow> map_of obj k = None \<and> k \<notin> set Object_prototype_keys"
  by (auto simp: js_get_def split: option.splits)




text \<open>
  C9, as the code has it. When the read \<open>features[featureId]\<close> of the cell's feature
  identifier finds nothing (no feature is stored under it, and it is not the name of a
  member of \<open>Object.prototype\<close>: lemma \<open>js_get_Absent_iff\<close>), \<open>showSourceModal\<close> returns
  with the overlay as it was: none is created when the page has none, and an existing one
  keeps its contents and its visibility.
\<close>

theorem unknown_feature_leaves_modal:
  assumes "js_get (features st) (data_feature_id el) = Absent"
  shows "showSourceModal st el m = m"
  using assms by (simp add: showSourceModal_def Let_def)

theorem unknown_feature_leaves_modal_witness:
  "js_get (features initial_state) (data_feature_id cline_cell) = Absent
   \<and> showSourceModal initial_state cline_cell None = None
   \<and> showSourceModal initial_state cline_cell (showSourceModal tools_state cline_cell None)
       = showSourceModal tools_state cline_cell None"
proof -
  have a: "js_get (features initial_state) (data_feature_id cline_cell) = Absent"
    by code_simp
  from unknown_feature_leaves_modal[OF a] a show ?thesis by simp
qed

lemma constructor_cell_rendered:
  "cell_element (renderSupportCell None None Absent cline_key (js ''constructor''))
     = Some constructor_cell"
  by code_simp

lemma constructor_not_loaded:
  "map_of (features tools_state) (data_feature_id constructor_cell) = None"
  "map fst (features tools_state) = [js ''tools'']"
  by code_simp+

lemma constructor_opens_modal:
  "showSourceModal tools_state constructor_cell None
     = Some \<lparr>active = True, modal_title = js ''constructor'', note_body = None,
              note_display = js ''none'', evidence = NoEvidenceRecorded,
              evidence_display = js ''block'', link = NoSourceUrl, link_display = js ''block''\<rparr>"
  by code_simp

lemma constructor_overwrites_modal:
  "map_option (\<lambda>M. (active M, modal_title M)) closed_modal = Some (False, js ''Tools'')"
  "map_option (\<lambda>M. (active M, modal_title M)) (showSourceModal tools_state constructor_cell closed_modal)
     = Some (True, js ''constructor'')"
  by code_simp+

text \<open>
  C9, as the specification states it, fails: \<open>constructor\<close> is the identifier of no loaded
  feature (the only key of the map is \<open>tools\<close>), but the read \<open>features['constructor']\<close>
  of the plain object reaches \<open>Object.prototype\<close> and is truthy, so the guard does not
  fire. For the cell that \<open>renderSupportCell\<close> writes for a feature document whose \<open>id\<close> is
  \<open>constructor\<close>, \<open>showSourceModal\<close> creates and shows the overlay on a page without one,
  and reopens and retitles an overlay that was closed.
\<close>

theorem unknown_feature_constructor_counterexample:
  "cell_element (renderSupportCell None None Absent cline_key (js ''constructor''))
     = Some constructor_cell
   \<and> map fst (features tools_state) = [js ''tools'']
   \<and> map_of (features tools_state) (data_feature_id constructor_cell) = None
   \<and> showSourceModal tools_state constructor_cell None
       = Some \<lparr>active = True, modal_title = js ''constructor'', note_body = None,
                note_display = js ''none'', evidence = NoEvidenceRecorded,
                evidence_display = js ''block'', link = NoSourceUrl, link_display = js ''block''\<rparr>
   \<and> map_option (\<lambda>M. (active M, modal_title M)) closed_modal = Some (False, js ''Tools'')
   \<and> map_option (\<lambda>M. (active M, modal_title M)) (showSourceModal tools_state constructor_cell closed_modal)
       = Some (True, js ''constructor'')"
  by (simp only: constructor_cell_rendered constructor_not_loaded constructor_opens_modal
      constructor_overwrites_modal simp_thms)

end
